theory Spec2Isabelle
  imports Main "HOL-Library.Word"
begin

unbundle bit_operations_syntax

section \<open>Go values and failures\<close>

text \<open>
  The runtime stops in two ways: \<^verbatim>\<open>throw\<close> prints a fatal error and ends the
  process, \<^verbatim>\<open>panic\<close> unwinds to the caller, which may recover. Index errors and
  integer division by zero are panics raised by the language itself.
\<close>

datatype error = Throw string | Panic string

text \<open>
  Go's \<^verbatim>\<open>/\<close> and \<^verbatim>\<open>%\<close> on signed integers truncate towards zero; \<^verbatim>\<open>>>\<close> on a
  signed integer is the arithmetic shift, which is \<^const>\<open>drop_bit\<close> on \<^typ>\<open>int\<close>.
\<close>

definition go_quo :: "int \<Rightarrow> int \<Rightarrow> int" where
  "go_quo a b = sgn a * sgn b * (\<bar>a\<bar> div \<bar>b\<bar>)"

definition go_rem :: "int \<Rightarrow> int \<Rightarrow> int" where
  "go_rem a b = a - b * go_quo a b"

definition to_int8 :: "int \<Rightarrow> int" where
  "to_int8 x = (x + 128) mod 256 - 128"

definition to_int32 :: "int \<Rightarrow> int" where
  "to_int32 x = (x + 2147483648) mod 4294967296 - 2147483648"

text \<open>A fixed-size array of integers: reads and writes outside it panic.\<close>

definition aget :: "int list \<Rightarrow> int \<Rightarrow> error + int" where
  "aget xs i = (if 0 \<le> i \<and> i < int (length xs) then Inr (xs ! nat i)
                else Inl (Panic ''index out of range''))"

definition aset :: "int list \<Rightarrow> int \<Rightarrow> int \<Rightarrow> error + int list" where
  "aset xs i v = (if 0 \<le> i \<and> i < int (length xs) then Inr (xs[nat i := v])
                  else Inl (Panic ''index out of range''))"

section \<open>Constants of malloc.go\<close>

definition PageShift :: nat where "PageShift = 13"
definition PageSize :: int where "PageSize = 8192"
definition MaxSmallSize :: int where "MaxSmallSize = 32768"
definition NumSizeClasses :: int where "NumSizeClasses = 67"
definition TinySize :: int where "TinySize = 16"
definition TinySizeClass :: int where "TinySizeClass = 2"

section \<open>Size classes (msize.go)\<close>

subsection \<open>computeDivMagic\<close>

record divMagic =
  shift :: "8 word"
  mul :: "32 word"
  shift2 :: "8 word"
  baseMask :: "64 word"

text \<open>
  The loop \<^verbatim>\<open>for d&1 == 0 { m.shift++; d >>= 1 }\<close> on a \<^verbatim>\<open>uint32\<close>. It never ends
  for \<open>d = 0\<close>, so its result is an option.
\<close>

partial_function (option) factor_two :: "32 word \<Rightarrow> 8 word \<Rightarrow> (32 word \<times> 8 word) option" where
  "factor_two d sh =
     (if d AND 1 = 0 then factor_two (drop_bit 1 d) (sh + 1) else Some (d, sh))"

declare factor_two.simps [code]

text \<open>
  The loop \<^verbatim>\<open>for ((1<<k)+d64-1)/d64 >= 1<<32 { k-- }\<close> in \<^verbatim>\<open>uint64\<close> arithmetic,
  with \<open>k\<close> a \<^verbatim>\<open>uint8\<close>.
\<close>

function largest_k :: "64 word \<Rightarrow> 8 word \<Rightarrow> error + 8 word" where
  "largest_k d64 k =
     (if d64 = 0 then Inl (Panic ''integer divide by zero'')
      else if (push_bit (unat k) 1 + d64 - 1) div d64 \<ge> push_bit 32 1
      then largest_k d64 (k - 1)
      else Inr k)"
  by pat_completeness auto
termination
proof (relation "measure (\<lambda>(d64, k). unat k)")
  show "wf (measure (\<lambda>(d64 :: 64 word, k :: 8 word). unat k))" by simp
next
  fix d64 :: "64 word" and k :: "8 word"
  assume nz: "d64 \<noteq> 0"
    and c: "push_bit 32 1 \<le> (push_bit (unat k) 1 + d64 - 1) div d64"
  have "k \<noteq> 0"
  proof
    assume "k = 0"
    with c have "(push_bit 32 1 :: 64 word) \<le> d64 div d64" by simp
    moreover have "d64 div d64 = 1" using nz by (simp add: div_word_self)
    ultimately show False by (simp add: word_le_nat_alt)
  qed
  then have "unat (k - 1) < unat k"
    by (simp add: measure_unat)
  then show "((d64, k - 1), (d64, k)) \<in> measure (\<lambda>(d64, k). unat k)" by simp
qed

declare largest_k.simps [simp del]

definition computeDivMagic :: "32 word \<Rightarrow> (error + divMagic) option" where
  "computeDivMagic d =
     (let bm = (if d AND (d - 1) = 0 then NOT (ucast d - 1) else 0) in
      case factor_two d 0 of
        None \<Rightarrow> None
      | Some (d', sh) \<Rightarrow>
          (let d64 = (ucast d' :: 64 word) in
           case largest_k d64 63 of
             Inl e \<Rightarrow> Some (Inl e)
           | Inr k \<Rightarrow>
               Some (Inr \<lparr>shift = sh,
                          mul = ucast ((push_bit (unat k) 1 + d64 - 1) div d64),
                          shift2 = k, baseMask = bm\<rparr>)))"

text \<open>
  The division the constants stand for, as the comment on \<^verbatim>\<open>divMagic\<close> gives it:
  \<^verbatim>\<open>n/d == ((n>>m.shift) * m.mul) >> m.shift2\<close>, computed in \<^verbatim>\<open>uint64\<close>; and the
  masking \<^verbatim>\<open>n & m.baseMask\<close> for a power of two.
\<close>

definition magic_quo :: "divMagic \<Rightarrow> 64 word \<Rightarrow> 64 word" where
  "magic_quo m n = drop_bit (unat (shift2 m)) (drop_bit (unat (shift m)) n * ucast (mul m))"

definition magic_base :: "divMagic \<Rightarrow> 64 word \<Rightarrow> 64 word" where
  "magic_base m n = n AND baseMask m"

subsection \<open>initSizes\<close>

record size_tables =
  class_to_size :: "int list"
  class_to_allocnpages :: "int list"
  class_to_divmagic :: "divMagic list"
  size_to_class8 :: "int list"
  size_to_class128 :: "int list"

text \<open>
  \<^verbatim>\<open>initSizes\<close> computes in Go's 64-bit \<^verbatim>\<open>int\<close>. Every value it reaches from its
  start is below \<open>2^31\<close>, so the integers of HOL compute the same; the conversions to
  the \<^verbatim>\<open>int32\<close> and \<^verbatim>\<open>int8\<close> array elements are written out.
\<close>

definition bump_align :: "int \<Rightarrow> int \<Rightarrow> int" where
  "bump_align sz align =
     (if sz AND (sz - 1) = 0 then
        (if sz \<ge> 2048 then 256
         else if sz \<ge> 128 then go_quo sz 8
         else if sz \<ge> 16 then 16
         else align)
      else align)"

text \<open>
  \<^verbatim>\<open>for allocsize%size > allocsize/8 { allocsize += _PageSize }\<close>: nothing in the loop
  bounds it, so its result is an option.
\<close>

partial_function (option) grow_allocsize :: "int \<Rightarrow> int \<Rightarrow> (error + int) option" where
  "grow_allocsize allocsize sz =
     (if sz = 0 then Some (Inl (Panic ''integer divide by zero''))
      else if go_rem allocsize sz > go_quo allocsize 8
      then grow_allocsize (allocsize + PageSize) sz
      else Some (Inr allocsize))"

declare grow_allocsize.simps [code]

text \<open>
  The rest of one iteration, once \<open>allocsize\<close> is chosen: either the previous class
  takes the new size (\<^verbatim>\<open>continue\<close>), or a new class is recorded.
\<close>

definition record_class ::
  "int \<Rightarrow> int \<Rightarrow> int \<Rightarrow> int list \<Rightarrow> int list \<Rightarrow> error + (int \<times> int list \<times> int list)" where
  "record_class sz allocsize sizeclass cts ctn =
     (let npages = drop_bit PageShift allocsize in
      case (if sizeclass > 1 then
              (case aget ctn (sizeclass - 1) of
                 Inl e \<Rightarrow> Inl e
               | Inr pn \<Rightarrow>
                   if npages = pn then
                     (case aget cts (sizeclass - 1) of
                        Inl e \<Rightarrow> Inl e
                      | Inr ps \<Rightarrow>
                          if ps = 0 then Inl (Panic ''integer divide by zero'')
                          else Inr (go_quo allocsize sz = go_quo allocsize ps))
                   else Inr False)
            else Inr False) of
        Inl e \<Rightarrow> Inl e
      | Inr True \<Rightarrow>
          (case aset cts (sizeclass - 1) (to_int32 sz) of
             Inl e \<Rightarrow> Inl e
           | Inr cts' \<Rightarrow> Inr (sizeclass, cts', ctn))
      | Inr False \<Rightarrow>
          (case aset ctn sizeclass (to_int32 npages) of
             Inl e \<Rightarrow> Inl e
           | Inr ctn' \<Rightarrow>
               (case aset cts sizeclass (to_int32 sz) of
                  Inl e \<Rightarrow> Inl e
                | Inr cts' \<Rightarrow> Inr (sizeclass + 1, cts', ctn'))))"

text \<open>
  \<^verbatim>\<open>for size := align; size <= _MaxSmallSize; size += align\<close>. With \<open>align = 0\<close>
  the loop would not advance, so its result is an option as well.
\<close>

partial_function (option) choose_classes ::
  "int \<Rightarrow> int \<Rightarrow> int \<Rightarrow> int list \<Rightarrow> int list \<Rightarrow>
   (error + (int \<times> int list \<times> int list)) option" where
  "choose_classes sz align sizeclass cts ctn =
     (if sz \<le> MaxSmallSize then
        (let align' = bump_align sz align in
         if align' AND (align' - 1) \<noteq> 0 then Some (Inl (Throw ''InitSizes - bug''))
         else
           Option.bind (grow_allocsize PageSize sz) (\<lambda>r.
             case r of
               Inl e \<Rightarrow> Some (Inl e)
             | Inr allocsize \<Rightarrow>
                 (case record_class sz allocsize sizeclass cts ctn of
                    Inl e \<Rightarrow> Some (Inl e)
                  | Inr (sizeclass', cts', ctn') \<Rightarrow>
                      choose_classes (sz + align') align' sizeclass' cts' ctn')))
      else Some (Inr (sizeclass, cts, ctn)))"

declare choose_classes.simps [code]

text \<open>The two loops that fill \<^verbatim>\<open>size_to_class8\<close> and \<^verbatim>\<open>size_to_class128\<close>.\<close>

function fill8 :: "int \<Rightarrow> int \<Rightarrow> int list \<Rightarrow> int list \<Rightarrow> error + (int \<times> int list)" where
  "fill8 nextsize sizeclass cts s8 =
     (if nextsize < 1024 then
        (case aget cts sizeclass of
           Inl e \<Rightarrow> Inl e
         | Inr csz \<Rightarrow>
             if nextsize \<le> csz then
               (case aset s8 (go_quo nextsize 8) (to_int8 sizeclass) of
                  Inl e \<Rightarrow> Inl e
                | Inr s8' \<Rightarrow> fill8 (nextsize + 8) sizeclass cts s8')
             else Inr (nextsize, s8))
      else Inr (nextsize, s8))"
  by pat_completeness auto
termination
  by (relation "measure (\<lambda>(nextsize, sizeclass, cts, s8). nat (1024 - nextsize))") auto

declare fill8.simps [simp del]

function fill128 :: "int \<Rightarrow> int \<Rightarrow> int list \<Rightarrow> int list \<Rightarrow> error + (int \<times> int list)" where
  "fill128 nextsize sizeclass cts s128 =
     (case aget cts sizeclass of
        Inl e \<Rightarrow> Inl e
      | Inr csz \<Rightarrow>
          if nextsize \<le> csz then
            (case aset s128 (go_quo (nextsize - 1024) 128) (to_int8 sizeclass) of
               Inl e \<Rightarrow> Inl e
             | Inr s128' \<Rightarrow> fill128 (nextsize + 128) sizeclass cts s128')
          else Inr (nextsize, s128))"
  by pat_completeness auto
termination
  by (relation "measure (\<lambda>(nextsize, sizeclass, cts, s128).
        case aget cts sizeclass of Inl e \<Rightarrow> 0 | Inr csz \<Rightarrow> nat (csz + 1 - nextsize))") auto

declare fill128.simps [simp del]

function fill_tables ::
  "int \<Rightarrow> int \<Rightarrow> int list \<Rightarrow> int list \<Rightarrow> int list \<Rightarrow> error + (int list \<times> int list)" where
  "fill_tables nextsize sizeclass cts s8 s128 =
     (if sizeclass < NumSizeClasses then
        (case fill8 nextsize sizeclass cts s8 of
           Inl e \<Rightarrow> Inl e
         | Inr (n1, s8') \<Rightarrow>
             (case (if n1 \<ge> 1024 then fill128 n1 sizeclass cts s128 else Inr (n1, s128)) of
                Inl e \<Rightarrow> Inl e
              | Inr (n2, s128') \<Rightarrow> fill_tables n2 (sizeclass + 1) cts s8' s128'))
      else Inr (s8, s128))"
  by pat_completeness auto
termination
  by (relation "measure (\<lambda>(nextsize, sizeclass, cts, s8, s128). nat (NumSizeClasses - sizeclass))")
     auto

declare fill_tables.simps [simp del]

text \<open>
  \<^verbatim>\<open>for i := 1; i < len(class_to_size); i++ { class_to_divmagic[i] = computeDivMagic(...) }\<close>
\<close>

function init_divmagic ::
  "nat \<Rightarrow> int list \<Rightarrow> divMagic list \<Rightarrow> (error + divMagic list) option" where
  "init_divmagic i cts dm =
     (if i < length cts then
        (case computeDivMagic (word_of_int (cts ! i)) of
           None \<Rightarrow> None
         | Some (Inl e) \<Rightarrow> Some (Inl e)
         | Some (Inr m) \<Rightarrow>
             if i < length dm then init_divmagic (i + 1) cts (dm[i := m])
             else Some (Inl (Panic ''index out of range'')))
      else Some (Inr dm))"
  by pat_completeness auto
termination
  by (relation "measure (\<lambda>(i, cts, dm). length cts - i)") auto

declare init_divmagic.simps [simp del]

definition zero_magic :: divMagic where
  "zero_magic = \<lparr>shift = 0, mul = 0, shift2 = 0, baseMask = 0\<rparr>"

text \<open>
  \<^verbatim>\<open>initSizes\<close>, from the zeroed global arrays. The calls that only test or copy the
  tables out (\<^verbatim>\<open>testdefersizes\<close>, the statistics table) are left out.
\<close>

definition initSizes :: "(error + size_tables) option" where
  "initSizes =
     Option.bind (choose_classes 8 8 1 ((replicate 67 0)[0 := 0]) (replicate 67 0)) (\<lambda>r.
       case r of
         Inl e \<Rightarrow> Some (Inl e)
       | Inr (sizeclass, cts, ctn) \<Rightarrow>
           if sizeclass \<noteq> NumSizeClasses
           then Some (Inl (Throw ''InitSizes - bad NumSizeClasses''))
           else
             (case fill_tables 0 1 cts (replicate 129 0) (replicate 249 0) of
                Inl e \<Rightarrow> Some (Inl e)
              | Inr (s8, s128) \<Rightarrow>
                  (case init_divmagic 1 cts (replicate 67 zero_magic) of
                     None \<Rightarrow> None
                   | Some (Inl e) \<Rightarrow> Some (Inl e)
                   | Some (Inr dm) \<Rightarrow>
                       Some (Inr \<lparr>class_to_size = cts, class_to_allocnpages = ctn,
                                  class_to_divmagic = dm, size_to_class8 = s8,
                                  size_to_class128 = s128\<rparr>))))"

subsection \<open>sizeToClass\<close>

text \<open>
  \<^verbatim>\<open>sizeToClass\<close> takes an \<^verbatim>\<open>int32\<close>, here an integer in that range; its
  arithmetic wraps at 32 bits.
\<close>

definition sizeToClass :: "size_tables \<Rightarrow> int \<Rightarrow> error + int" where
  "sizeToClass t sz =
     (if sz > MaxSmallSize then Inl (Throw ''SizeToClass - invalid size'')
      else if sz > 1024 - 8
      then aget (size_to_class128 t) (drop_bit 7 (to_int32 (to_int32 (sz - 1024) + 127)))
      else aget (size_to_class8 t) (drop_bit 3 (to_int32 (sz + 7))))"

section \<open>The tables initSizes computes\<close>

text \<open>
  The five tables as \<^verbatim>\<open>initSizes\<close> leaves them on a 64-bit Linux; the first, fourth
  and fifth are the ones the comment above \<^verbatim>\<open>initSizes\<close> lists.
\<close>

definition linux_class_to_size :: "int list" where
  "linux_class_to_size =
     [0, 8, 16, 32, 48, 64, 80, 96, 112, 128, 144, 160, 176, 192, 208, 224, 240, 256, 288,
      320, 352, 384, 416, 448, 480, 512, 576, 640, 704, 768, 896, 1024, 1152, 1280, 1408,
      1536, 1664, 2048, 2304, 2560, 2816, 3072, 3328, 4096, 4608, 5376, 6144, 6400, 6656,
      6912, 8192, 8448, 8704, 9472, 10496, 12288, 13568, 14080, 16384, 16640, 17664,
      20480, 21248, 24576, 24832, 28416, 32768]"

definition linux_class_to_allocnpages :: "int list" where
  "linux_class_to_allocnpages =
     0 # replicate 33 1 @
     [2, 1, 2, 1, 2, 1, 3, 2, 3, 1, 3, 2, 3, 4, 5, 6, 1, 7, 6, 5, 4, 3, 5, 7, 2, 9, 7,
      5, 8, 3, 10, 7, 4]"

definition linux_class_to_divmagic :: "divMagic list" where
  "linux_class_to_divmagic =
     [\<lparr>shift = 0, mul = 0, shift2 = 0, baseMask = 0\<rparr>,
      \<lparr>shift = 3, mul = 2147483648, shift2 = 31, baseMask = 18446744073709551608\<rparr>,
      \<lparr>shift = 4, mul = 2147483648, shift2 = 31, baseMask = 18446744073709551600\<rparr>,
      \<lparr>shift = 5, mul = 2147483648, shift2 = 31, baseMask = 18446744073709551584\<rparr>,
      \<lparr>shift = 4, mul = 2863311531, shift2 = 33, baseMask = 0\<rparr>,
      \<lparr>shift = 6, mul = 2147483648, shift2 = 31, baseMask = 18446744073709551552\<rparr>,
      \<lparr>shift = 4, mul = 3435973837, shift2 = 34, baseMask = 0\<rparr>,
      \<lparr>shift = 5, mul = 2863311531, shift2 = 33, baseMask = 0\<rparr>,
      \<lparr>shift = 4, mul = 2454267027, shift2 = 34, baseMask = 0\<rparr>,
      \<lparr>shift = 7, mul = 2147483648, shift2 = 31, baseMask = 18446744073709551488\<rparr>,
      \<lparr>shift = 4, mul = 3817748708, shift2 = 35, baseMask = 0\<rparr>,
      \<lparr>shift = 5, mul = 3435973837, shift2 = 34, baseMask = 0\<rparr>,
      \<lparr>shift = 4, mul = 3123612579, shift2 = 35, baseMask = 0\<rparr>,
      \<lparr>shift = 6, mul = 2863311531, shift2 = 33, baseMask = 0\<rparr>,
      \<lparr>shift = 4, mul = 2643056798, shift2 = 35, baseMask = 0\<rparr>,
      \<lparr>shift = 5, mul = 2454267027, shift2 = 34, baseMask = 0\<rparr>,
      \<lparr>shift = 4, mul = 2290649225, shift2 = 35, baseMask = 0\<rparr>,
      \<lparr>shift = 8, mul = 2147483648, shift2 = 31, baseMask = 18446744073709551360\<rparr>,
      \<lparr>shift = 5, mul = 3817748708, shift2 = 35, baseMask = 0\<rparr>,
      \<lparr>shift = 6, mul = 3435973837, shift2 = 34, baseMask = 0\<rparr>,
      \<lparr>shift = 5, mul = 3123612579, shift2 = 35, baseMask = 0\<rparr>,
      \<lparr>shift = 7, mul = 2863311531, shift2 = 33, baseMask = 0\<rparr>,
      \<lparr>shift = 5, mul = 2643056798, shift2 = 35, baseMask = 0\<rparr>,
      \<lparr>shift = 6, mul = 2454267027, shift2 = 34, baseMask = 0\<rparr>,
      \<lparr>shift = 5, mul = 2290649225, shift2 = 35, baseMask = 0\<rparr>,
      \<lparr>shift = 9, mul = 2147483648, shift2 = 31, baseMask = 18446744073709551104\<rparr>,
      \<lparr>shift = 6, mul = 3817748708, shift2 = 35, baseMask = 0\<rparr>,
      \<lparr>shift = 7, mul = 3435973837, shift2 = 34, baseMask = 0\<rparr>,
      \<lparr>shift = 6, mul = 3123612579, shift2 = 35, baseMask = 0\<rparr>,
      \<lparr>shift = 8, mul = 2863311531, shift2 = 33, baseMask = 0\<rparr>,
      \<lparr>shift = 7, mul = 2454267027, shift2 = 34, baseMask = 0\<rparr>,
      \<lparr>shift = 10, mul = 2147483648, shift2 = 31, baseMask = 18446744073709550592\<rparr>,
      \<lparr>shift = 7, mul = 3817748708, shift2 = 35, baseMask = 0\<rparr>,
      \<lparr>shift = 8, mul = 3435973837, shift2 = 34, baseMask = 0\<rparr>,
      \<lparr>shift = 7, mul = 3123612579, shift2 = 35, baseMask = 0\<rparr>,
      \<lparr>shift = 9, mul = 2863311531, shift2 = 33, baseMask = 0\<rparr>,
      \<lparr>shift = 7, mul = 2643056798, shift2 = 35, baseMask = 0\<rparr>,
      \<lparr>shift = 11, mul = 2147483648, shift2 = 31, baseMask = 18446744073709549568\<rparr>,
      \<lparr>shift = 8, mul = 3817748708, shift2 = 35, baseMask = 0\<rparr>,
      \<lparr>shift = 9, mul = 3435973837, shift2 = 34, baseMask = 0\<rparr>,
      \<lparr>shift = 8, mul = 3123612579, shift2 = 35, baseMask = 0\<rparr>,
      \<lparr>shift = 10, mul = 2863311531, shift2 = 33, baseMask = 0\<rparr>,
      \<lparr>shift = 8, mul = 2643056798, shift2 = 35, baseMask = 0\<rparr>,
      \<lparr>shift = 12, mul = 2147483648, shift2 = 31, baseMask = 18446744073709547520\<rparr>,
      \<lparr>shift = 9, mul = 3817748708, shift2 = 35, baseMask = 0\<rparr>,
      \<lparr>shift = 8, mul = 3272356036, shift2 = 36, baseMask = 0\<rparr>,
      \<lparr>shift = 11, mul = 2863311531, shift2 = 33, baseMask = 0\<rparr>,
      \<lparr>shift = 8, mul = 2748779070, shift2 = 36, baseMask = 0\<rparr>,
      \<lparr>shift = 9, mul = 2643056798, shift2 = 35, baseMask = 0\<rparr>,
      \<lparr>shift = 8, mul = 2545165806, shift2 = 36, baseMask = 0\<rparr>,
      \<lparr>shift = 13, mul = 2147483648, shift2 = 31, baseMask = 18446744073709543424\<rparr>,
      \<lparr>shift = 8, mul = 4164816772, shift2 = 37, baseMask = 0\<rparr>,
      \<lparr>shift = 9, mul = 4042322161, shift2 = 36, baseMask = 0\<rparr>,
      \<lparr>shift = 8, mul = 3714566311, shift2 = 37, baseMask = 0\<rparr>,
      \<lparr>shift = 8, mul = 3352169597, shift2 = 37, baseMask = 0\<rparr>,
      \<lparr>shift = 12, mul = 2863311531, shift2 = 33, baseMask = 0\<rparr>,
      \<lparr>shift = 8, mul = 2593187802, shift2 = 37, baseMask = 0\<rparr>,
      \<lparr>shift = 8, mul = 2498890064, shift2 = 37, baseMask = 0\<rparr>,
      \<lparr>shift = 14, mul = 2147483648, shift2 = 31, baseMask = 18446744073709535232\<rparr>,
      \<lparr>shift = 8, mul = 4228890877, shift2 = 38, baseMask = 0\<rparr>,
      \<lparr>shift = 8, mul = 3983737782, shift2 = 38, baseMask = 0\<rparr>,
      \<lparr>shift = 12, mul = 3435973837, shift2 = 34, baseMask = 0\<rparr>,
      \<lparr>shift = 8, mul = 3311782012, shift2 = 38, baseMask = 0\<rparr>,
      \<lparr>shift = 13, mul = 2863311531, shift2 = 33, baseMask = 0\<rparr>,
      \<lparr>shift = 8, mul = 2833792856, shift2 = 38, baseMask = 0\<rparr>,
      \<lparr>shift = 8, mul = 2476377541, shift2 = 38, baseMask = 0\<rparr>,
      \<lparr>shift = 15, mul = 2147483648, shift2 = 31, baseMask = 18446744073709518848\<rparr>]"

definition linux_size_to_class8 :: "int list" where
  "linux_size_to_class8 =
     [1, 1, 2, 3, 3, 4, 4, 5, 5, 6, 6, 7, 7, 8, 8, 9, 9, 10, 10, 11, 11, 12, 12, 13, 13,
      14, 14, 15, 15, 16, 16, 17, 17, 18, 18, 18, 18, 19, 19, 19, 19, 20, 20, 20, 20, 21,
      21, 21, 21, 22, 22, 22, 22, 23, 23, 23, 23, 24, 24, 24, 24, 25, 25, 25, 25, 26, 26,
      26, 26, 26, 26, 26, 26, 27, 27, 27, 27, 27, 27, 27, 27, 28, 28, 28, 28, 28, 28, 28,
      28, 29, 29, 29, 29, 29, 29, 29, 29, 30, 30, 30, 30, 30, 30, 30, 30, 30, 30, 30, 30,
      30, 30, 30, 30, 31, 31, 31, 31, 31, 31, 31, 31, 31, 31, 31, 31, 31, 31, 31, 0]"

definition linux_size_to_class128 :: "int list" where
  "linux_size_to_class128 =
     [31, 32, 33, 34, 35, 36, 37, 37, 37, 38, 38, 39, 39, 40, 40, 41, 41, 42, 42, 43, 43,
      43, 43, 43, 43, 44, 44, 44, 44, 45, 45, 45, 45, 45, 45, 46, 46, 46, 46, 46, 46, 47,
      47, 48, 48, 49, 49, 50, 50, 50, 50, 50, 50, 50, 50, 50, 50, 51, 51, 52, 52, 53, 53,
      53, 53, 53, 53, 54, 54, 54, 54, 54, 54, 54, 54, 55, 55, 55, 55, 55, 55, 55, 55, 55,
      55, 55, 55, 55, 55, 56, 56, 56, 56, 56, 56, 56, 56, 56, 56, 57, 57, 57, 57, 58, 58,
      58, 58, 58, 58, 58, 58, 58, 58, 58, 58, 58, 58, 58, 58, 58, 58, 59, 59, 60, 60, 60,
      60, 60, 60, 60, 60, 61, 61, 61, 61, 61, 61, 61, 61, 61, 61, 61, 61, 61, 61, 61, 61,
      61, 61, 61, 61, 61, 61, 62, 62, 62, 62, 62, 62, 63, 63, 63, 63, 63, 63, 63, 63, 63,
      63, 63, 63, 63, 63, 63, 63, 63, 63, 63, 63, 63, 63, 63, 63, 63, 63, 64, 64, 65, 65,
      65, 65, 65, 65, 65, 65, 65, 65, 65, 65, 65, 65, 65, 65, 65, 65, 65, 65, 65, 65, 65,
      65, 65, 65, 65, 65, 66, 66, 66, 66, 66, 66, 66, 66, 66, 66, 66, 66, 66, 66, 66, 66,
      66, 66, 66, 66, 66, 66, 66, 66, 66, 66, 66, 66, 66, 66, 66, 66, 66, 66]"

definition linux_tables :: size_tables where
  "linux_tables =
     \<lparr>class_to_size = linux_class_to_size,
      class_to_allocnpages = linux_class_to_allocnpages,
      class_to_divmagic = linux_class_to_divmagic,
      size_to_class8 = linux_size_to_class8,
      size_to_class128 = linux_size_to_class128\<rparr>"

subsection \<open>The search for the multiplier's shift\<close>

text \<open>
  The loop of \<^const>\<open>largest_k\<close> stops at the one \<open>k\<close> where its test changes, so each
  class needs the test at two values only.
\<close>

lemma unat_k_numer:
  fixes d64 :: "64 word"
  assumes "unat d64 \<noteq> 0" "unat d64 < 2 ^ 32" "j \<le> 63"
  shows "unat (push_bit j 1 + d64 - 1) = 2 ^ j + unat d64 - 1"
proof -
  have a: "unat (d64 - 1) = unat d64 - 1"
    using assms(1) by (simp add: unat_minus_one unat_eq_zero)
  have "(2::nat) ^ j < 2 ^ 64"
    using assms(3) by (intro power_strict_increasing) simp_all
  then have b: "unat (2 ^ j :: 64 word) = 2 ^ j"
    using of_nat_inverse [of "2 ^ j" "2 ^ j :: 64 word"] by simp
  have c: "(2::nat) ^ j \<le> 2 ^ 63"
    using assms(3) by (intro power_increasing) simp_all
  have e: "push_bit j 1 + d64 - 1 = 2 ^ j + (d64 - 1)"
    by simp
  have "unat (2 ^ j + (d64 - 1)) = unat (2 ^ j :: 64 word) + unat (d64 - 1)"
    using a b c assms(2) by (intro unat_add_lem [THEN iffD1]) simp
  then show ?thesis
    unfolding e using a b assms(1) by simp
qed

lemma k_cond_nat:
  fixes d64 :: "64 word"
  assumes "unat d64 \<noteq> 0" "unat d64 < 2 ^ 32" "j \<le> 63"
  shows "(push_bit 32 1 \<le> (push_bit j 1 + d64 - 1) div d64) \<longleftrightarrow>
         (2 ^ 32 * unat d64 \<le> 2 ^ j + unat d64 - 1)"
proof -
  have "unat ((push_bit j 1 + d64 - 1) div d64) = (2 ^ j + unat d64 - 1) div unat d64"
    by (simp only: unat_div unat_k_numer [OF assms])
  moreover have "unat (push_bit 32 1 :: 64 word) = 2 ^ 32" by simp
  ultimately show ?thesis
    using assms(1) by (simp add: word_le_nat_alt less_eq_div_iff_mult_less_eq)
qed

lemma largest_k_down:
  fixes d64 :: "64 word"
  assumes d: "unat d64 \<noteq> 0" "unat d64 < 2 ^ 32"
    and lo: "\<not> 2 ^ 32 * unat d64 \<le> 2 ^ k0 + unat d64 - 1"
    and hi: "2 ^ 32 * unat d64 \<le> 2 ^ Suc k0 + unat d64 - 1"
  shows "k0 \<le> j \<Longrightarrow> j \<le> 63 \<Longrightarrow> largest_k d64 (of_nat j) = Inr (of_nat k0)"
proof (induction "j - k0" arbitrary: j)
  case 0
  then have "j = k0" by simp
  moreover have "d64 \<noteq> 0" using d(1) by auto
  ultimately show ?case
    using k_cond_nat [OF d, of k0] lo 0
    by (subst largest_k.simps) (simp add: unat_of_nat)
next
  case (Suc n)
  then obtain j' where j: "j = Suc j'" "k0 \<le> j'" "n = j' - k0"
    by (cases j) auto
  have nz: "d64 \<noteq> 0" using d(1) by auto
  have "(2::nat) ^ Suc k0 \<le> 2 ^ j"
    using j by (intro power_increasing) simp_all
  then have c: "2 ^ 32 * unat d64 \<le> 2 ^ j + unat d64 - 1"
    using hi by linarith
  have u: "unat (of_nat j :: 8 word) = j"
    using Suc.prems by (simp add: unat_of_nat)
  have "largest_k d64 (of_nat j) = largest_k d64 (of_nat j - 1)"
    using k_cond_nat [OF d, of j] c Suc.prems nz u
    by (subst largest_k.simps) simp
  also have "of_nat j - 1 = (of_nat j' :: 8 word)"
    using j by simp
  also have "largest_k d64 (of_nat j') = Inr (of_nat k0)"
    using Suc.hyps(1) [of j'] j Suc.prems by simp
  finally show ?case .
qed

definition magic_is :: "int \<Rightarrow> divMagic \<Rightarrow> bool" where
  "magic_is d m =
     (case factor_two (word_of_int d) 0 of
        None \<Rightarrow> False
      | Some (d', sh) \<Rightarrow>
          (let k0 = unat (shift2 m); d64 = (ucast d' :: 64 word); w = (word_of_int d :: 32 word) in
           unat d' \<noteq> 0 \<and> k0 < 63 \<and>
           \<not> 2 ^ 32 * unat d' \<le> 2 ^ k0 + unat d' - 1 \<and>
           2 ^ 32 * unat d' \<le> 2 ^ Suc k0 + unat d' - 1 \<and>
           m = \<lparr>shift = sh, mul = ucast ((push_bit k0 1 + d64 - 1) div d64),
                 shift2 = shift2 m,
                 baseMask = (if w AND (w - 1) = 0 then NOT (ucast w - 1) else 0)\<rparr>))"

lemma magic_is_sound:
  assumes "magic_is d m"
  shows "computeDivMagic (word_of_int d) = Some (Inr m)"
proof -
  from assms obtain d' sh where f: "factor_two (word_of_int d) 0 = Some (d', sh)"
    by (auto simp: magic_is_def split: option.splits)
  define k0 where "k0 = unat (shift2 m)"
  define d64 where "d64 = (ucast d' :: 64 word)"
  have b: "unat d' < 2 ^ 32"
    using unsigned_less [of d', where 'a = nat] by simp
  then have "unat d' < 2 ^ 64"
    by (rule less_trans) simp
  then have u: "unat d64 = unat d'"
    unfolding d64_def by (simp add: unsigned_ucast_eq take_bit_nat_eq_self)
  from assms f have c: "unat d64 \<noteq> 0" "k0 < 63"
      "\<not> 2 ^ 32 * unat d64 \<le> 2 ^ k0 + unat d64 - 1"
      "2 ^ 32 * unat d64 \<le> 2 ^ Suc k0 + unat d64 - 1"
    and m: "m = \<lparr>shift = sh, mul = ucast ((push_bit k0 1 + d64 - 1) div d64),
                 shift2 = shift2 m,
                 baseMask = (if (word_of_int d :: 32 word) AND (word_of_int d - 1) = 0
                             then NOT (ucast (word_of_int d :: 32 word) - 1) else 0)\<rparr>"
    unfolding u by (simp_all add: magic_is_def Let_def k0_def d64_def)
  have "largest_k d64 (of_nat 63) = Inr (of_nat k0)"
    using c b u by (intro largest_k_down) simp_all
  then have k: "largest_k d64 63 = Inr (shift2 m)"
    by (simp add: k0_def)
  have "unat (shift2 m) = k0" by (simp add: k0_def)
  then show ?thesis
    unfolding computeDivMagic_def
    by (subst m) (simp add: f k Let_def flip: d64_def)
qed

lemma magic_vals:
  "list_all2 magic_is (drop 1 linux_class_to_size) (drop 1 linux_class_to_divmagic)"
  unfolding linux_class_to_size_def linux_class_to_divmagic_def
  by (simp add: magic_is_def factor_two.simps)


lemma init_divmagic_run:
  assumes "list_all2 (\<lambda>d m. computeDivMagic (word_of_int d) = Some (Inr m)) (drop i cts) (drop i ms)"
    and "length cts = length dm" and "length ms = length dm" and "i \<le> length cts"
  shows "init_divmagic i cts dm = Some (Inr (take i dm @ drop i ms))"
  using assms
proof (induction "length cts - i" arbitrary: i dm)
  case 0
  then show ?case by (simp add: init_divmagic.simps)
next
  case (Suc n)
  then have i: "i < length cts" by simp
  from Suc.prems(1) i Suc.prems(2,3)
  have hd: "computeDivMagic (word_of_int (cts ! i)) = Some (Inr (ms ! i))"
    and tl: "list_all2 (\<lambda>d m. computeDivMagic (word_of_int d) = Some (Inr m))
               (drop (Suc i) cts) (drop (Suc i) ms)"
    by (simp_all add: Cons_nth_drop_Suc [symmetric])
  have "init_divmagic (Suc i) cts (dm[i := ms ! i]) =
        Some (Inr (take (Suc i) (dm[i := ms ! i]) @ drop (Suc i) ms))"
    using Suc.hyps(2) Suc.prems i tl by (intro Suc.hyps(1)) simp_all
  moreover have "take (Suc i) (dm[i := ms ! i]) @ drop (Suc i) ms = take i dm @ drop i ms"
    using i Suc.prems(2,3)
    by (simp add: take_Suc_conv_app_nth Cons_nth_drop_Suc)
  ultimately show ?case
    using i hd Suc.prems(2) by (subst init_divmagic.simps) simp
qed

subsection \<open>Running initSizes\<close>

lemma choose_classes_eval:
  "choose_classes 8 8 1 ((replicate 67 0)[0 := 0]) (replicate 67 0) =
   Some (Inr (67, linux_class_to_size, linux_class_to_allocnpages))"
  by code_simp

lemma fill_tables_eval:
  "fill_tables 0 1 linux_class_to_size (replicate 129 0) (replicate 249 0) =
   Inr (linux_size_to_class8, linux_size_to_class128)"
  by code_simp

lemma init_divmagic_eval:
  "init_divmagic 1 linux_class_to_size (replicate 67 zero_magic) =
   Some (Inr linux_class_to_divmagic)"
proof -
  have l1: "length linux_class_to_size = 67" and l2: "length linux_class_to_divmagic = 67"
    by (simp_all add: linux_class_to_size_def linux_class_to_divmagic_def)
  have z: "take 1 (replicate 67 zero_magic) @ drop 1 linux_class_to_divmagic =
           linux_class_to_divmagic"
    by (simp add: linux_class_to_divmagic_def zero_magic_def)
  have "list_all2 (\<lambda>d m. computeDivMagic (word_of_int d) = Some (Inr m))
          (drop 1 linux_class_to_size) (drop 1 linux_class_to_divmagic)"
    by (rule list_all2_mono [OF magic_vals]) (rule magic_is_sound)
  from init_divmagic_run [OF this, of "replicate 67 zero_magic"] l1 l2 z
  show ?thesis by simp
qed

lemma initSizes_eval: "initSizes = Some (Inr linux_tables)"
  unfolding initSizes_def
  by (simp add: choose_classes_eval fill_tables_eval init_divmagic_eval NumSizeClasses_def
        linux_tables_def del: One_nat_def)

section \<open>The allocator's state (malloc.go, mcentral.go)\<close>

type_synonym uintptr = "64 word"

text \<open>
  A span. Its free list is intrusive in the source, each free slot holding the address
  of the next; here it is the list of those addresses, head first, and the empty list
  is the nil head. Spans are shared objects reached through pointers: the heap holds
  them in a store, and a pointer is an index into it, \<open>0\<close> for nil.
\<close>

record mspan =
  start :: uintptr
  npages :: uintptr
  freelist :: "uintptr list"
  ref :: "16 word"
  sizeclass :: "8 word"
  elemsize :: uintptr
  limit :: uintptr
  incache :: bool
  sweepgen :: "32 word"
  needzero :: "8 word"

text \<open>
  A central free list: its two span lists, front first. The page heap: the span store,
  one central list per size class, the sweep generation, and the spans free in the
  heap.
\<close>

record mcentral =
  nonempty :: "nat list"
  empty :: "nat list"

record mheap =
  spans :: "nat \<Rightarrow> mspan"
  central :: "mcentral list"
  free_spans :: "nat list"
  h_sweepgen :: "32 word"

record mcache =
  tiny :: uintptr
  tinyoffset :: uintptr
  local_tinyallocs :: uintptr
  local_cachealloc :: uintptr
  local_scan :: uintptr
  alloc :: "nat list"

text \<open>
  One thread of the runtime: its cache, the heap it shares, its \<^verbatim>\<open>mallocing\<close> flag,
  and whether it runs on its signal stack (\<^verbatim>\<open>mp.gsignal == getg()\<close>).
\<close>

record runtime =
  heap :: mheap
  cache :: mcache
  mallocing :: "32 word"
  on_gsignal :: bool

record rtype =
  tsize :: uintptr
  ptrdata :: uintptr
  kind :: "8 word"
  is_deferType :: bool

text \<open>
  What malloc.go and mcentral.go use and do not define. The functions are those of
  mheap.go, mcache.go and the collector, taken as they are called; the constants
  depend on the platform and on type declarations.
\<close>

record extern =
  tables :: size_tables
  zerobase :: uintptr
  deferSize :: uintptr
  kindNoPointers :: "8 word"
  MaxMem :: uintptr
  mCache_Refill :: "mheap \<Rightarrow> nat \<Rightarrow> int \<Rightarrow> error + (nat \<times> mheap)"
  mHeap_Alloc :: "mheap \<Rightarrow> uintptr \<Rightarrow> int \<Rightarrow> bool \<Rightarrow> bool \<Rightarrow> nat \<times> mheap"
  mHeap_Free :: "mheap \<Rightarrow> nat \<Rightarrow> mheap"
  mSpan_Sweep :: "mheap \<Rightarrow> nat \<Rightarrow> mheap"
  deductSweepCredit :: "mheap \<Rightarrow> uintptr \<Rightarrow> uintptr \<Rightarrow> mheap"

definition flagNoScan :: "32 word" where "flagNoScan = 1"
definition flagNoZero :: "32 word" where "flagNoZero = 2"
definition maxTinySize :: uintptr where "maxTinySize = 16"
definition tinySizeClass :: int where "tinySizeClass = 2"
definition maxSmallSize :: uintptr where "maxSmallSize = 32768"
definition pageShift :: nat where "pageShift = 13"
definition pageSize :: uintptr where "pageSize = 8192"
definition pageMask :: uintptr where "pageMask = 8191"

section \<open>mallocgc (malloc.go)\<close>

text \<open>
  Modelled from the spec: \<^verbatim>\<open>round\<close> is not under src/. The tiny allocator aligns its
  offset ``to 8/4/2 bytes'': \<open>round n a\<close> is \<open>n\<close> rounded up to a multiple of the power
  of two \<open>a\<close>.
\<close>

definition round :: "uintptr \<Rightarrow> uintptr \<Rightarrow> uintptr" where
  "round n a = (n + a - 1) AND NOT (a - 1)"

text \<open>
  The size class of a small request, as mallocgc computes it in place, in
  \<^verbatim>\<open>uintptr\<close> arithmetic.
\<close>

definition inline_sizeclass :: "size_tables \<Rightarrow> uintptr \<Rightarrow> error + int" where
  "inline_sizeclass t sz =
     (if sz \<le> 1024 - 8
      then aget (size_to_class8 t) (uint (drop_bit 3 (sz + 7)))
      else aget (size_to_class128 t) (uint (drop_bit 7 (sz - 1024 + 127))))"

text \<open>
  Taking the next free slot of the cached span of a class; mallocgc has these lines
  twice, for the tiny block and for a small object. Modelled from the spec:
  \<^verbatim>\<open>mCache_Refill\<close> is not under src/; it obtains ``a replenished span'' from the
  central list and installs ``it as the active span for that class''. The result is the
  slot, \<^verbatim>\<open>shouldhelpgc\<close>, and the heap and cache after it.
\<close>

definition next_slot ::
  "extern \<Rightarrow> mheap \<Rightarrow> mcache \<Rightarrow> int \<Rightarrow> error + (uintptr \<times> bool \<times> mheap \<times> mcache)" where
  "next_slot ext h c cl =
     (if cl < 0 \<or> int (length (alloc c)) \<le> cl then Inl (Panic ''index out of range'')
      else
        (let s = alloc c ! nat cl in
         if s = 0 then Inl (Panic ''nil pointer dereference'')
         else
           case (if freelist (spans h s) = [] \<or> hd (freelist (spans h s)) = 0 then
                   (case mCache_Refill ext h s cl of
                      Inl e \<Rightarrow> Inl e
                    | Inr (s', h') \<Rightarrow> Inr (True, h', c\<lparr>alloc := (alloc c)[nat cl := s']\<rparr>))
                 else Inr (False, h, c)) of
             Inl e \<Rightarrow> Inl e
           | Inr (shouldhelpgc, h1, c1) \<Rightarrow>
               (let s1 = alloc c1 ! nat cl in
                if s1 = 0 then Inl (Panic ''nil pointer dereference'')
                else
                  case freelist (spans h1 s1) of
                    [] \<Rightarrow> Inl (Panic ''nil pointer dereference'')
                  | v # rest \<Rightarrow>
                      if v = 0 then Inl (Panic ''nil pointer dereference'')
                      else
                        Inr (v, shouldhelpgc,
                             h1\<lparr>spans := (spans h1)
                                  (s1 := (spans h1 s1)\<lparr>freelist := rest,
                                                         ref := ref (spans h1 s1) + 1\<rparr>)\<rparr>,
                             c1))))"

text \<open>The alignment of the tiny offset, by the low bits of the size.\<close>

definition tiny_align :: "uintptr \<Rightarrow> uintptr \<Rightarrow> uintptr" where
  "tiny_align sz off =
     (if sz AND 7 = 0 then round off 8
      else if sz AND 3 = 0 then round off 4
      else if sz AND 1 = 0 then round off 2
      else off)"

text \<open>
  The large-object path. The heap bitmap (\<^verbatim>\<open>initSpan\<close>) belongs to the collector and
  is left out.
\<close>

definition largeAlloc :: "extern \<Rightarrow> mheap \<Rightarrow> uintptr \<Rightarrow> 32 word \<Rightarrow> (error + nat) \<times> mheap" where
  "largeAlloc ext h sz flag =
     (if sz + pageSize < sz then (Inl (Throw ''out of memory''), h)
      else
        (let npages0 = drop_bit pageShift sz;
             npages1 = (if sz AND pageMask \<noteq> 0 then npages0 + 1 else npages0);
             h1 = deductSweepCredit ext h (npages1 * pageSize) npages1;
             (s, h2) = mHeap_Alloc ext h1 npages1 0 True (flag AND flagNoZero = 0)
         in if s = 0 then (Inl (Throw ''out of memory''), h2)
            else (Inr s,
                  h2\<lparr>spans := (spans h2)
                       (s := (spans h2 s)\<lparr>limit := push_bit pageShift (start (spans h2 s)) + sz\<rparr>)\<rparr>)))"

text \<open>
  After the object is allocated: the scan accounting of the cache. The calls into the
  collector (heap bitmap, marking, starting or assisting a collection) are left out.
\<close>

definition account_scan ::
  "extern \<Rightarrow> mcache \<Rightarrow> uintptr \<Rightarrow> rtype option \<Rightarrow> 32 word \<Rightarrow> error + mcache" where
  "account_scan ext c dataSize typ flags =
     (if flags AND flagNoScan \<noteq> 0 then Inr c
      else
        case typ of
          None \<Rightarrow> Inl (Panic ''nil pointer dereference'')
        | Some t \<Rightarrow>
            (let dataSize' = (if is_deferType t then deferSize ext else dataSize) in
             if dataSize' > tsize t then
               (if ptrdata t \<noteq> 0
                then Inr (c\<lparr>local_scan := local_scan c + (dataSize' - tsize t + ptrdata t)\<rparr>)
                else Inr c)
             else Inr (c\<lparr>local_scan := local_scan c + ptrdata t\<rparr>)))"

definition malloc_done ::
  "extern \<Rightarrow> runtime \<Rightarrow> uintptr \<Rightarrow> uintptr \<Rightarrow> rtype option \<Rightarrow> 32 word \<Rightarrow>
   (error + uintptr) \<times> runtime" where
  "malloc_done ext r x dataSize typ flags =
     (case account_scan ext (cache r) dataSize typ flags of
        Inl e \<Rightarrow> (Inl e, r)
      | Inr c \<Rightarrow> (Inr x, r\<lparr>cache := c, mallocing := 0\<rparr>))"

definition mallocgc ::
  "extern \<Rightarrow> runtime \<Rightarrow> uintptr \<Rightarrow> rtype option \<Rightarrow> 32 word \<Rightarrow> (error + uintptr) \<times> runtime" where
  "mallocgc ext r0 sz typ flags =
     (if sz = 0 then (Inr (zerobase ext), r0)
      else if mallocing r0 \<noteq> 0 then (Inl (Throw ''malloc deadlock''), r0)
      else if on_gsignal r0 then (Inl (Throw ''malloc during signal''), r0)
      else
        (let r = r0\<lparr>mallocing := 1\<rparr>; c = cache r in
         if sz \<le> maxSmallSize then
           (if flags AND flagNoScan \<noteq> 0 \<and> sz < maxTinySize then
              (let off = tiny_align sz (tinyoffset c) in
               if off + sz \<le> maxTinySize \<and> tiny c \<noteq> 0 then
                 (Inr (tiny c + off),
                  r\<lparr>cache := c\<lparr>tinyoffset := off + sz,
                                  local_tinyallocs := local_tinyallocs c + 1\<rparr>,
                    mallocing := 0\<rparr>)
               else
                 case next_slot ext (heap r) c tinySizeClass of
                   Inl e \<Rightarrow> (Inl e, r)
                 | Inr (x, shouldhelpgc, h1, c1) \<Rightarrow>
                     (let c2 = (if sz < tinyoffset c1
                                then c1\<lparr>tiny := x, tinyoffset := sz\<rparr> else c1);
                          c3 = c2\<lparr>local_cachealloc := local_cachealloc c2 + maxTinySize\<rparr>
                      in malloc_done ext (r\<lparr>heap := h1, cache := c3\<rparr>) x sz typ flags))
            else
              (case inline_sizeclass (tables ext) sz of
                 Inl e \<Rightarrow> (Inl e, r)
               | Inr cl \<Rightarrow>
                   (case aget (class_to_size (tables ext)) cl of
                      Inl e \<Rightarrow> (Inl e, r)
                    | Inr csz \<Rightarrow>
                        (case next_slot ext (heap r) c cl of
                           Inl e \<Rightarrow> (Inl e, r)
                         | Inr (x, shouldhelpgc, h1, c1) \<Rightarrow>
                             (let c2 = c1\<lparr>local_cachealloc :=
                                             local_cachealloc c1 + word_of_int csz\<rparr>
                              in malloc_done ext (r\<lparr>heap := h1, cache := c2\<rparr>) x sz typ flags)))))
         else
           (case largeAlloc ext (heap r) sz flags of
              (Inl e, h1) \<Rightarrow> (Inl e, r\<lparr>heap := h1\<rparr>)
            | (Inr s, h1) \<Rightarrow>
                malloc_done ext (r\<lparr>heap := h1\<rparr>) (push_bit pageShift (start (spans h1 s)))
                  sz typ flags)))"

text \<open>\<^verbatim>\<open>newarray\<close>: the element count is checked before mallocgc is entered.\<close>

definition newarray ::
  "extern \<Rightarrow> runtime \<Rightarrow> rtype \<Rightarrow> uintptr \<Rightarrow> (error + uintptr) \<times> runtime" where
  "newarray ext r typ n =
     (let flags = (if kind typ AND kindNoPointers ext \<noteq> 0 then flagNoScan else 0) in
      if sint n < 0 \<or> (tsize typ > 0 \<and> n > MaxMem ext div tsize typ)
      then (Inl (Panic ''runtime: allocation size out of range''), r)
      else mallocgc ext r (tsize typ * n) (Some typ) flags)"

section \<open>Classification of small sizes\<close>

lemma to_int32_id: "- 2147483648 \<le> x \<Longrightarrow> x < 2147483648 \<Longrightarrow> to_int32 x = x"
  by (simp add: to_int32_def)

lemma linux_lengths:
  "length linux_class_to_size = 67" "length linux_class_to_allocnpages = 67"
  "length linux_class_to_divmagic = 67"
  "length linux_size_to_class8 = 129" "length linux_size_to_class128 = 249"
  by (simp_all add: linux_class_to_size_def linux_class_to_allocnpages_def
      linux_class_to_divmagic_def linux_size_to_class8_def linux_size_to_class128_def)


text \<open>
  Both classifications read the same table entry. This needs nothing of the tables:
  it is the index arithmetic alone, in \<^verbatim>\<open>int32\<close> for \<^const>\<open>sizeToClass\<close> and in
  \<^verbatim>\<open>uintptr\<close> for mallocgc, where \<open>size - 1024\<close> wraps around for the sizes from 1017
  to 1023 and the addition of 127 brings it back.
\<close>

lemma sizeToClass_index:
  assumes "1 \<le> s" "s \<le> 32768"
  shows "sizeToClass t s =
         (if s \<le> 1016 then aget (size_to_class8 t) ((s + 7) div 8)
          else aget (size_to_class128 t) ((s - 897) div 128))"
proof -
  have "to_int32 (s + 7) = s + 7"
    using assms by (intro to_int32_id) simp_all
  moreover have "to_int32 (s - 1024) = s - 1024"
    using assms by (intro to_int32_id) simp_all
  moreover have "to_int32 (s - 1024 + 127) = s - 897"
    using assms to_int32_id [of "s - 897"] by simp
  ultimately show ?thesis
    using assms by (simp add: sizeToClass_def MaxSmallSize_def drop_bit_eq_div)
qed

lemma uint_small_int:
  assumes "0 \<le> k" "k < 2 ^ 64"
  shows "uint (word_of_int k :: uintptr) = k"
  using assms by (simp add: uint_word_of_int)

lemma uint_drop_bit_word: "uint (drop_bit n (w :: uintptr)) = uint w div 2 ^ n"
proof -
  have "unat (drop_bit n w) = unat w div 2 ^ n"
    unfolding unat_drop_bit_eq by (rule drop_bit_eq_div)
  then have "uint (drop_bit n w) = int (unat w div 2 ^ n)"
    by (simp only: uint_nat)
  also have "\<dots> = uint w div 2 ^ n"
    by (simp only: uint_nat zdiv_int of_nat_power of_nat_numeral)
  finally show ?thesis .
qed

lemma uint_class8_index:
  assumes "1 \<le> s" "s \<le> 1016"
  shows "uint (drop_bit 3 (word_of_int s + 7 :: uintptr)) = (s + 7) div 8"
proof -
  have "(word_of_int s + 7 :: uintptr) = word_of_int (s + 7)"
    by simp
  moreover have "uint (word_of_int (s + 7) :: uintptr) = s + 7"
    using assms by (intro uint_small_int) simp_all
  ultimately show ?thesis
    by (simp only: uint_drop_bit_word) simp
qed

lemma uint_class128_index:
  assumes "1016 < s" "s \<le> 32768"
  shows "uint (drop_bit 7 (word_of_int s - 1024 + 127 :: uintptr)) = (s - 897) div 128"
proof -
  have "(word_of_int s - 1024 + 127 :: uintptr) = word_of_int (s - 897)"
    by simp
  moreover have "uint (word_of_int (s - 897) :: uintptr) = s - 897"
    using assms by (intro uint_small_int) simp_all
  ultimately show ?thesis
    by (simp only: uint_drop_bit_word) simp
qed

lemma small_boundary_word:
  assumes "1 \<le> s" "s \<le> 32768"
  shows "(word_of_int s :: uintptr) \<le> 1024 - 8 \<longleftrightarrow> s \<le> 1016"
proof -
  have "uint (word_of_int s :: uintptr) = s"
    using assms by (intro uint_small_int) simp_all
  then show ?thesis
    by (simp add: word_le_def)
qed


lemma inline_sizeclass_index:
  assumes "1 \<le> s" "s \<le> 32768"
  shows "inline_sizeclass t (word_of_int s) =
         (if s \<le> 1016 then aget (size_to_class8 t) ((s + 7) div 8)
          else aget (size_to_class128 t) ((s - 897) div 128))"
proof (cases "s \<le> 1016")
  case True
  then show ?thesis
    using assms uint_class8_index [of s] small_boundary_word [of s]
    by (simp add: inline_sizeclass_def)
next
  case False
  then show ?thesis
    using assms uint_class128_index [of s] small_boundary_word [of s]
    by (simp add: inline_sizeclass_def)
qed

lemma sizeToClass_small:
  assumes "1 \<le> s" "s \<le> 1016"
  shows "sizeToClass linux_tables s = Inr (linux_size_to_class8 ! nat ((s + 7) div 8))"
proof -
  have "0 \<le> (s + 7) div 8" "(s + 7) div 8 < 129"
    using assms by simp_all
  then show ?thesis
    using assms by (simp add: sizeToClass_index linux_tables_def aget_def linux_lengths)
qed

lemma sizeToClass_large:
  assumes "1016 < s" "s \<le> 32768"
  shows "sizeToClass linux_tables s = Inr (linux_size_to_class128 ! nat ((s - 897) div 128))"
proof -
  have "0 \<le> (s - 897) div 128" "(s - 897) div 128 < 249"
    using assms by simp_all
  then show ?thesis
    using assms by (simp add: sizeToClass_index linux_tables_def aget_def linux_lengths)
qed

subsection \<open>Every table entry, checked\<close>

text \<open>
  Entry \<open>i\<close> of \<^verbatim>\<open>size_to_class8\<close> serves the requests from \<open>8 i - 7\<close> to \<open>8 i\<close>, entry
  \<open>j\<close> of \<^verbatim>\<open>size_to_class128\<close> those from \<open>128 j + 897\<close> (and above 1016) to
  \<open>128 j + 1024\<close>. For each entry: its class is a valid one, the class size reaches the
  upper end, the class below does not reach the lower end, and the waste at the lower
  end is bounded.
\<close>

definition covers8 :: "int \<Rightarrow> bool" where
  "covers8 i = (let c = linux_size_to_class8 ! nat i; lo = 8 * i - 7 in
     1 \<le> c \<and> c \<le> 66 \<and> 8 * i \<le> linux_class_to_size ! nat c \<and>
     linux_class_to_size ! nat (c - 1) < lo \<and>
     linux_class_to_size ! nat c - lo < max 16 (lo div 4))"

definition covers128 :: "int \<Rightarrow> bool" where
  "covers128 j = (let c = linux_size_to_class128 ! nat j; lo = max 1017 (128 * j + 897) in
     1 \<le> c \<and> c \<le> 66 \<and> 128 * j + 1024 \<le> linux_class_to_size ! nat c \<and>
     linux_class_to_size ! nat (c - 1) < lo \<and>
     linux_class_to_size ! nat c - lo < max 16 (lo div 4))"

lemma covers8_all: "list_all covers8 [1..127]"
  by code_simp

lemma covers128_all: "list_all covers128 [0..248]"
  by code_simp

lemma class_sizes_sorted: "sorted linux_class_to_size"
  by code_simp

lemma class_size_mono:
  "0 \<le> a \<Longrightarrow> a \<le> b \<Longrightarrow> b \<le> 66 \<Longrightarrow>
   linux_class_to_size ! nat a \<le> linux_class_to_size ! nat b"
  using class_sizes_sorted by (simp add: sorted_iff_nth_mono linux_lengths)

text \<open>What one entry of a lookup table gives for every request that reaches it.\<close>

lemma entry_covers:
  assumes c: "1 \<le> c" "c \<le> 66"
    and lo: "lo \<le> s" and hi: "s \<le> linux_class_to_size ! nat c"
    and prev: "linux_class_to_size ! nat (c - 1) < lo"
    and waste: "linux_class_to_size ! nat c - lo < max 16 (lo div 4)"
  shows "\<exists>sz. aget linux_class_to_size c = Inr sz \<and> s \<le> sz \<and> sz - s < max 16 (s div 4) \<and>
           (\<forall>c'. 1 \<le> c' \<and> c' \<le> 66 \<longrightarrow> s \<le> linux_class_to_size ! nat c' \<longrightarrow>
                 sz \<le> linux_class_to_size ! nat c')"
proof -
  let ?sz = "linux_class_to_size ! nat c"
  have g: "aget linux_class_to_size c = Inr ?sz"
    using c by (simp add: aget_def linux_lengths)
  have "lo div 4 \<le> s div 4"
    using lo by (intro zdiv_mono1) simp_all
  then have w: "?sz - s < max 16 (s div 4)"
    using waste lo by linarith
  have m: "?sz \<le> linux_class_to_size ! nat c'"
    if c': "1 \<le> c'" "c' \<le> 66" and s: "s \<le> linux_class_to_size ! nat c'" for c'
  proof (cases "c \<le> c'")
    case True
    then show ?thesis using c c' by (intro class_size_mono) simp_all
  next
    case False
    then have "linux_class_to_size ! nat c' \<le> linux_class_to_size ! nat (c - 1)"
      using c c' by (intro class_size_mono) simp_all
    with prev lo s show ?thesis by linarith
  qed
  show ?thesis
    using g hi w m by blast
qed


lemma tables_of_init: "initSizes = Some (Inr t) \<Longrightarrow> t = linux_tables"
  by (simp add: initSizes_eval)

text \<open>
  Claim C1, as the code has it. For every request \<open>s\<close> from 1 to 32768, \<^const>\<open>sizeToClass\<close>
  returns a class from 1 to 66 whose size is at least \<open>s\<close>; it is the smallest class
  size that is, and it exceeds \<open>s\<close> by less than 16 bytes or by less than a quarter of
  \<open>s\<close>. The bound of 12.5% of the claim does not hold: classes are 16 bytes apart from
  16 bytes on, and merged classes leave gaps such as the one from 3328 to 4096.
\<close>

theorem sizeToClass_covers_request:
  assumes init: "initSizes = Some (Inr t)" and s: "1 \<le> s" "s \<le> 32768"
  shows "\<exists>c sz. sizeToClass t s = Inr c \<and> 1 \<le> c \<and> c \<le> 66 \<and>
           aget (class_to_size t) c = Inr sz \<and> s \<le> sz \<and> sz - s < max 16 (s div 4) \<and>
           (\<forall>c'. 1 \<le> c' \<and> c' \<le> 66 \<longrightarrow> s \<le> class_to_size t ! nat c' \<longrightarrow>
                 sz \<le> class_to_size t ! nat c')"
proof -
  have t: "t = linux_tables"
    using init by (rule tables_of_init)
  have cts: "class_to_size t = linux_class_to_size"
    by (simp add: t linux_tables_def)
  show ?thesis
  proof (cases "s \<le> 1016")
    case True
    define i where "i = (s + 7) div 8"
    have i: "1 \<le> i" "i \<le> 127" "8 * i - 7 \<le> s" "s \<le> 8 * i"
      using s True by (simp_all add: i_def)
    then have "covers8 i"
      using covers8_all by (simp add: list_all_iff)
    then have e: "1 \<le> linux_size_to_class8 ! nat i" "linux_size_to_class8 ! nat i \<le> 66"
        "8 * i \<le> linux_class_to_size ! nat (linux_size_to_class8 ! nat i)"
        "linux_class_to_size ! nat (linux_size_to_class8 ! nat i - 1) < 8 * i - 7"
        "linux_class_to_size ! nat (linux_size_to_class8 ! nat i) - (8 * i - 7)
           < max 16 ((8 * i - 7) div 4)"
      by (simp_all add: covers8_def Let_def)
    have "sizeToClass t s = Inr (linux_size_to_class8 ! nat i)"
      using s True by (simp add: t i_def sizeToClass_small)
    moreover have "s \<le> linux_class_to_size ! nat (linux_size_to_class8 ! nat i)"
      using e(3) i(4) by linarith
    ultimately show ?thesis
      using entry_covers [OF e(1,2) i(3) _ e(4,5)] e(1,2) unfolding cts by blast
  next
    case False
    define j where "j = (s - 897) div 128"
    define lo where "lo = max 1017 (128 * j + 897)"
    have j: "0 \<le> j" "j \<le> 248" "lo \<le> s" "s \<le> 128 * j + 1024"
      using s False by (simp_all add: j_def lo_def)
    then have "covers128 j"
      using covers128_all by (simp add: list_all_iff)
    then have e: "1 \<le> linux_size_to_class128 ! nat j" "linux_size_to_class128 ! nat j \<le> 66"
        "128 * j + 1024 \<le> linux_class_to_size ! nat (linux_size_to_class128 ! nat j)"
        "linux_class_to_size ! nat (linux_size_to_class128 ! nat j - 1) < lo"
        "linux_class_to_size ! nat (linux_size_to_class128 ! nat j) - lo < max 16 (lo div 4)"
      by (simp_all add: covers128_def Let_def lo_def)
    have "sizeToClass t s = Inr (linux_size_to_class128 ! nat j)"
      using s False by (simp add: t j_def sizeToClass_large)
    moreover have "s \<le> linux_class_to_size ! nat (linux_size_to_class128 ! nat j)"
      using e(3) j(4) by linarith
    ultimately show ?thesis
      using entry_covers [OF e(1,2) j(3) _ e(4,5)] e(1,2) unfolding cts by blast
  qed
qed


theorem sizeToClass_covers_request_witness:
  "initSizes = Some (Inr linux_tables) \<and> (1::int) \<le> 5000 \<and> (5000::int) \<le> 32768 \<and>
   (\<exists>c sz. sizeToClass linux_tables 5000 = Inr c \<and> 1 \<le> c \<and> c \<le> 66 \<and>
      aget (class_to_size linux_tables) c = Inr sz \<and> 5000 \<le> sz \<and> sz - 5000 < 1250)"
  using sizeToClass_covers_request [OF initSizes_eval, of 5000] initSizes_eval
  by simp blast

text \<open>
  A request of 17 bytes is given the class of 32 bytes, while 17 times 1.125, rounded up
  and then rounded up to a multiple of 8, is 24.
\<close>

theorem sizeToClass_waste_counterexample:
  "initSizes = Some (Inr linux_tables) \<and>
   sizeToClass linux_tables 17 = Inr 3 \<and>
   aget (class_to_size linux_tables) 3 = Inr 32 \<and>
   \<not> (32::int) \<le> (((17 * 9 + 7) div 8 + 7) div 8) * 8"
proof -
  have "sizeToClass linux_tables 17 = Inr 3"
    by code_simp
  moreover have "aget (class_to_size linux_tables) 3 = Inr 32"
    by code_simp
  ultimately show ?thesis
    using initSizes_eval by simp
qed

definition reclassifies :: "int \<Rightarrow> bool" where
  "reclassifies c =
     (case aget linux_class_to_size c of
        Inl e \<Rightarrow> False
      | Inr sz \<Rightarrow> sizeToClass linux_tables sz = Inr c)"

lemma reclassifies_all: "list_all reclassifies [1..66]"
  by code_simp

text \<open>
  Claim C2. For every class \<open>c\<close> from 1 to 66, \<^const>\<open>sizeToClass\<close> of the size of class
  \<open>c\<close> is \<open>c\<close>.
\<close>

theorem sizeToClass_class_size:
  assumes "initSizes = Some (Inr t)" and "1 \<le> c" "c \<le> 66"
  shows "\<exists>sz. aget (class_to_size t) c = Inr sz \<and> sizeToClass t sz = Inr c"
proof -
  have t: "t = linux_tables"
    using assms(1) by (rule tables_of_init)
  have "reclassifies c"
    using reclassifies_all assms(2,3) by (simp add: list_all_iff)
  then show ?thesis
    by (auto simp: reclassifies_def t linux_tables_def split: sum.splits)
qed


theorem sizeToClass_class_size_witness:
  "initSizes = Some (Inr linux_tables) \<and> (1::int) \<le> 31 \<and> (31::int) \<le> 66 \<and>
   (\<exists>sz. aget (class_to_size linux_tables) 31 = Inr sz \<and>
      sizeToClass linux_tables sz = Inr 31)"
  using sizeToClass_class_size [OF initSizes_eval, of 31] initSizes_eval
  by simp

text \<open>
  Claim C10. For every size from 1 to 32768 the classification written out in mallocgc
  gives what \<^const>\<open>sizeToClass\<close> gives; the sizes from 1017 to 1024 are read by both
  from entry 0 of \<^verbatim>\<open>size_to_class128\<close> and get class 31, of 1024 bytes.
\<close>

theorem inline_sizeclass_agrees:
  assumes "initSizes = Some (Inr t)" and "1 \<le> s" "s \<le> 32768"
  shows "inline_sizeclass t (word_of_int s) = sizeToClass t s \<and>
         (1016 < s \<and> s \<le> 1024 \<longrightarrow>
            sizeToClass t s = aget (size_to_class128 t) 0 \<and>
            sizeToClass t s = Inr 31 \<and> aget (class_to_size t) 31 = Inr 1024)"
proof -
  have t: "t = linux_tables"
    using assms(1) by (rule tables_of_init)
  have e: "inline_sizeclass t (word_of_int s) = sizeToClass t s"
    using assms(2,3) by (simp only: inline_sizeclass_index sizeToClass_index)
  have z: "aget (size_to_class128 linux_tables) 0 = Inr 31"
    by code_simp
  have c: "aget (class_to_size linux_tables) 31 = Inr 1024"
    by code_simp
  have "sizeToClass t s = aget (size_to_class128 t) 0" if "1016 < s" "s \<le> 1024"
  proof -
    have "(s - 897) div 128 = 0"
      using that by simp
    with that assms(2,3) show ?thesis
      by (simp add: sizeToClass_index)
  qed
  with e z c show ?thesis
    by (simp add: t)
qed

theorem inline_sizeclass_agrees_witness:
  "initSizes = Some (Inr linux_tables) \<and> (1::int) \<le> 1020 \<and> (1020::int) \<le> 32768 \<and>
   inline_sizeclass linux_tables 1020 = sizeToClass linux_tables 1020 \<and>
   sizeToClass linux_tables 1020 = Inr 31"
  using inline_sizeclass_agrees [OF initSizes_eval, of 1020] initSizes_eval
  by auto

section \<open>Properties of mallocgc\<close>

text \<open>
  A failure is reported to the caller when the caller gets control back: a panic. A
  throw is not.
\<close>

definition reported_to_caller :: "error + 'a \<Rightarrow> bool" where
  "reported_to_caller res = (case res of Inl (Panic m) \<Rightarrow> True | _ \<Rightarrow> False)"

lemma overflow_is_large:
  fixes sz :: uintptr
  assumes "sz + pageSize < sz"
  shows "sz \<noteq> 0" "\<not> sz \<le> maxSmallSize"
proof -
  have "\<not> sz \<le> sz + pageSize"
    using assms by simp
  then have "\<not> unat sz + unat pageSize < 2 ^ 64"
    by (simp add: no_plus_overflow_unat_size word_size)
  then have big: "2 ^ 64 - 8192 \<le> unat sz"
    by (simp add: pageSize_def)
  then show "sz \<noteq> 0"
    by (auto simp: unat_eq_zero)
  from big show "\<not> sz \<le> maxSmallSize"
    by (simp add: word_le_nat_alt maxSmallSize_def)
qed

lemma account_scan_noscan:
  "flags AND flagNoScan \<noteq> 0 \<Longrightarrow> account_scan ext c d typ flags = Inr c"
  by (simp add: account_scan_def)

lemma newarray_out_of_range:
  assumes "unat (MaxMem ext) < unat (tsize typ) * unat n"
  shows "newarray ext r typ n = (Inl (Panic ''runtime: allocation size out of range''), r)"
proof -
  have pos: "0 < unat (tsize typ)"
    using assms by (cases "unat (tsize typ) = 0") simp_all
  then have "tsize typ > 0"
    by (simp add: word_less_nat_alt)
  moreover have "unat (MaxMem ext) div unat (tsize typ) < unat n"
    using assms pos by (simp add: div_less_iff_less_mult mult.commute)
  then have "n > MaxMem ext div tsize typ"
    by (simp add: word_less_nat_alt unat_div)
  ultimately show ?thesis
    by (simp add: newarray_def)
qed

lemma mallocgc_overflow:
  assumes "sz + pageSize < sz" "mallocing r = 0" "\<not> on_gsignal r"
  shows "mallocgc ext r sz typ flags = (Inl (Throw ''out of memory''), r\<lparr>mallocing := 1\<rparr>)"
  using assms overflow_is_large [OF assms(1)]
  by (simp add: mallocgc_def largeAlloc_def Let_def)


lemma account_scan_keeps:
  assumes "account_scan ext c d typ flags = Inr c'"
  shows "alloc c' = alloc c" "tiny c' = tiny c" "tinyoffset c' = tinyoffset c"
    "local_cachealloc c' = local_cachealloc c" "local_tinyallocs c' = local_tinyallocs c"
  using assms
  by (auto simp: account_scan_def Let_def split: if_splits option.splits)

lemma large_page_count:
  fixes sz :: uintptr
  shows "(if sz AND pageMask \<noteq> 0 then drop_bit pageShift sz + 1 else drop_bit pageShift sz) =
         word_of_nat ((unat sz + 8191) div 8192)"
proof -
  have "(8191 :: uintptr) = mask 13"
    by (simp add: mask_eq_exp_minus_1)
  then have m: "sz AND pageMask = take_bit 13 sz"
    by (simp only: pageMask_def take_bit_eq_mask)
  have "unat (take_bit 13 sz) = unat sz mod 2 ^ 13"
    unfolding unsigned_take_bit_eq by (rule take_bit_eq_mod)
  then have z: "sz AND pageMask = 0 \<longleftrightarrow> unat sz mod 8192 = 0"
    unfolding m by (simp add: unat_eq_zero [symmetric] del: unat_eq_zero)
  have "drop_bit 13 sz = sz div 2 ^ 13"
    by (rule drop_bit_eq_div)
  also have "\<dots> = word_of_nat (unat sz div unat (2 ^ 13 :: uintptr))"
    by (rule word_arith_nat_div)
  also have "unat (2 ^ 13 :: uintptr) = 8192"
    by simp
  finally have d: "drop_bit pageShift sz = word_of_nat (unat sz div 8192)"
    unfolding pageShift_def .
  have split: "(unat sz + 8191) div 8192 = unat sz div 8192 + (unat sz mod 8192 + 8191) div 8192"
    by (simp add: div_add1_eq [of "unat sz" 8191 8192])
  show ?thesis
  proof (cases "unat sz mod 8192 = 0")
    case True
    then have "(unat sz + 8191) div 8192 = unat sz div 8192"
      using split by simp
    then show ?thesis
      using True z by (simp only: d if_False if_True simp_thms)
  next
    case False
    have "unat sz mod 8192 < 8192"
      by simp
    with False have "(unat sz mod 8192 + 8191) div 8192 = 1"
      by (intro div_nat_eqI) simp_all
    then have "(unat sz + 8191) div 8192 = Suc (unat sz div 8192)"
      using split by simp
    moreover have "word_of_nat (Suc (unat sz div 8192)) = (word_of_nat (unat sz div 8192) + 1 :: uintptr)"
      by simp
    ultimately show ?thesis
      using False z by (simp only: d if_False if_True simp_thms)
  qed
qed


lemma mallocgc_large:
  assumes big: "maxSmallSize < sz" and nowrap: "\<not> sz + pageSize < sz"
    and free: "mallocing r = 0" "\<not> on_gsignal r"
    and np: "np = word_of_nat ((unat sz + 8191) div 8192)"
    and got: "mHeap_Alloc ext (deductSweepCredit ext (heap r) (np * pageSize) np) np 0 True
                (flags AND flagNoZero = 0) = (s, h)"
    and s: "s \<noteq> 0"
    and scan: "account_scan ext (cache r) sz typ flags = Inr c"
  shows "mallocgc ext r sz typ flags =
           (Inr (push_bit pageShift (start (spans h s))),
            r\<lparr>heap := h\<lparr>spans := (spans h)
                        (s := (spans h s)\<lparr>limit := push_bit pageShift (start (spans h s)) + sz\<rparr>)\<rparr>,
              cache := c, mallocing := 0\<rparr>)"
proof -
  have nz: "sz \<noteq> 0"
    using big by auto
  have nsmall: "\<not> sz \<le> maxSmallSize"
    using big by simp
  have l: "largeAlloc ext (heap r) sz flags =
           (Inr s, h\<lparr>spans := (spans h)
                      (s := (spans h s)\<lparr>limit := push_bit pageShift (start (spans h s)) + sz\<rparr>)\<rparr>)"
    using nowrap got s unfolding largeAlloc_def Let_def large_page_count np [symmetric]
    by simp
  show ?thesis
    using nz nsmall free scan
    by (simp add: mallocgc_def Let_def l malloc_done_def)
qed


subsection \<open>A small heap to run the allocator on\<close>

text \<open>
  Span 1 is a span of 16-byte objects with three free slots, cached for class 2; span 2
  stands for the empty span a cache starts with. The heap hands out span 3, at page 32,
  for every request of pages; nothing can be refilled.
\<close>

definition zero_span :: mspan where
  "zero_span = \<lparr>start = 0, npages = 0, freelist = [], ref = 0, sizeclass = 0, elemsize = 0,
                 limit = 0, incache = False, sweepgen = 0, needzero = 0\<rparr>"

definition demo_span :: mspan where
  "demo_span = \<lparr>start = 16, npages = 1, freelist = [131072, 131088, 131104], ref = 0,
                 sizeclass = 2, elemsize = 16, limit = 139264, incache = True, sweepgen = 0,
                 needzero = 0\<rparr>"

definition demo_heap :: mheap where
  "demo_heap =
     \<lparr>spans = (\<lambda>p. if p = 1 then demo_span else zero_span),
      central = (replicate 67 \<lparr>nonempty = [], empty = []\<rparr>)[2 := \<lparr>nonempty = [], empty = [1]\<rparr>],
      free_spans = [], h_sweepgen = 0\<rparr>"

definition demo_cache :: mcache where
  "demo_cache = \<lparr>tiny = 0, tinyoffset = 0, local_tinyallocs = 0, local_cachealloc = 0,
                  local_scan = 0, alloc = (replicate 67 2)[2 := 1]\<rparr>"

definition demo_extern :: extern where
  "demo_extern =
     \<lparr>tables = linux_tables, zerobase = 4096, deferSize = 48, kindNoPointers = 128,
      MaxMem = 549755813887,
      mCache_Refill = (\<lambda>h s cl. Inl (Throw ''out of memory'')),
      mHeap_Alloc = (\<lambda>h n cl large zeroed.
         (3, h\<lparr>spans := (spans h)(3 := zero_span\<lparr>start := 32, npages := n\<rparr>)\<rparr>)),
      mHeap_Free = (\<lambda>h s. h),
      mSpan_Sweep = (\<lambda>h s. h),
      deductSweepCredit = (\<lambda>h a n. h)\<rparr>"

definition demo_runtime :: runtime where
  "demo_runtime = \<lparr>heap = demo_heap, cache = demo_cache, mallocing = 0, on_gsignal = False\<rparr>"

lemma page_count_fits:
  "unat (word_of_nat ((unat (sz :: uintptr) + 8191) div 8192) :: uintptr) =
   (unat sz + 8191) div 8192"
proof -
  have "unat sz < 2 ^ 64"
    using unsigned_less [of sz, where 'a = nat] by simp
  then have "unat sz + 8191 < 2 ^ 64 * 8192"
    by simp
  then have "(unat sz + 8191) div 8192 < 2 ^ 64"
    by (rule less_mult_imp_div_less)
  then show ?thesis
    by (simp add: unat_of_nat)
qed

text \<open>
  Claim C3. A request above 32768 bytes whose size plus a page does not wrap around goes
  to \<^const>\<open>largeAlloc\<close>, which asks \<^verbatim>\<open>mHeap_Alloc\<close> for the size divided by 8192 and
  rounded up, in pages. When the heap returns a span of that many pages the call
  succeeds: the span keeps that page count, its limit is its start address plus the
  requested size, the central lists are as the heap left them, and in the cache the
  spans, the tiny block and the allocation count are untouched.
\<close>

theorem large_request_span:
  assumes "maxSmallSize < sz" and "\<not> sz + pageSize < sz"
    and "mallocing r = 0" and "\<not> on_gsignal r"
    and "np = word_of_nat ((unat sz + 8191) div 8192)"
    and "mHeap_Alloc ext (deductSweepCredit ext (heap r) (np * pageSize) np) np 0 True
           (flags AND flagNoZero = 0) = (s, h)"
    and "s \<noteq> 0" and "npages (spans h s) = np"
    and "account_scan ext (cache r) sz typ flags = Inr c"
  shows "\<exists>r'. mallocgc ext r sz typ flags = (Inr (push_bit pageShift (start (spans h s))), r') \<and>
           unat (npages (spans (heap r') s)) = (unat sz + 8191) div 8192 \<and>
           limit (spans (heap r') s) = push_bit pageShift (start (spans h s)) + sz \<and>
           start (spans (heap r') s) = start (spans h s) \<and>
           central (heap r') = central h \<and> free_spans (heap r') = free_spans h \<and>
           alloc (cache r') = alloc (cache r) \<and> tiny (cache r') = tiny (cache r) \<and>
           tinyoffset (cache r') = tinyoffset (cache r) \<and>
           local_cachealloc (cache r') = local_cachealloc (cache r)"
  using mallocgc_large [OF assms(1-7) assms(9)] assms(8) account_scan_keeps [OF assms(9)]
  by (simp add: assms(5) page_count_fits)

theorem large_request_span_witness:
  "maxSmallSize < (40000 :: uintptr) \<and> fst (mallocgc demo_extern demo_runtime 40000 None flagNoScan) = Inr 262144 \<and>
   unat (npages (spans (heap (snd (mallocgc demo_extern demo_runtime 40000 None flagNoScan))) 3)) = 5 \<and>
   limit (spans (heap (snd (mallocgc demo_extern demo_runtime 40000 None flagNoScan))) 3) = 302144"
proof -
  have a: "maxSmallSize < (40000 :: uintptr)" "\<not> (40000 :: uintptr) + pageSize < 40000"
    by (simp_all add: maxSmallSize_def pageSize_def)
  have b: "mallocing demo_runtime = 0" "\<not> on_gsignal demo_runtime"
    by (simp_all add: demo_runtime_def)
  have n: "(5 :: uintptr) = word_of_nat ((unat (40000 :: uintptr) + 8191) div 8192)"
    by simp
  have g: "mHeap_Alloc demo_extern
             (deductSweepCredit demo_extern (heap demo_runtime) (5 * pageSize) 5) 5 0 True
             (flagNoScan AND flagNoZero = 0) =
           (3, demo_heap\<lparr>spans := (spans demo_heap)(3 := zero_span\<lparr>start := 32, npages := 5\<rparr>)\<rparr>)"
    by (simp add: demo_extern_def demo_runtime_def)
  have k: "account_scan demo_extern (cache demo_runtime) 40000 None flagNoScan =
           Inr (cache demo_runtime)"
    by (simp add: account_scan_def flagNoScan_def)
  from large_request_span [OF a b n g _ _ k] a
  show ?thesis
    by (auto simp: zero_span_def pageShift_def)
qed


text \<open>
  Claim C9. An allocation of size 0 returns the address of \<^verbatim>\<open>zerobase\<close> and leaves the
  state as it was, in any state and with any type and flags; so any two of them return
  the same pointer.
\<close>

theorem mallocgc_zero_size:
  "mallocgc ext r 0 typ flags = (Inr (zerobase ext), r) \<and>
   fst (mallocgc ext r' 0 typ' flags') = fst (mallocgc ext r 0 typ flags)"
  by (simp add: mallocgc_def)

theorem mallocgc_zero_size_witness:
  "mallocgc demo_extern demo_runtime 0 None 0 = (Inr 4096, demo_runtime)"
  using mallocgc_zero_size [of demo_extern demo_runtime None 0]
  by (simp add: demo_extern_def)

text \<open>
  Claim C6, as the code has it. \<^const>\<open>newarray\<close> of elements whose total size exceeds
  \<^verbatim>\<open>_MaxMem\<close> panics before mallocgc is entered: the failure reaches the caller and the
  state is unchanged. A size that wraps around when a page is added ends in the throw
  \<open>out of memory\<close> of \<^const>\<open>largeAlloc\<close>: the heap and the cache are unchanged, but a
  throw ends the process and reports nothing to the caller.
\<close>

theorem oversize_request_fails:
  "(unat (MaxMem ext) < unat (tsize typ) * unat n \<longrightarrow>
      newarray ext r typ n = (Inl (Panic ''runtime: allocation size out of range''), r) \<and>
      reported_to_caller (fst (newarray ext r typ n))) \<and>
   (sz + pageSize < sz \<and> mallocing r = 0 \<and> \<not> on_gsignal r \<longrightarrow>
      mallocgc ext r sz typ' flags = (Inl (Throw ''out of memory''), r\<lparr>mallocing := 1\<rparr>) \<and>
      heap (snd (mallocgc ext r sz typ' flags)) = heap r \<and>
      cache (snd (mallocgc ext r sz typ' flags)) = cache r \<and>
      \<not> reported_to_caller (fst (mallocgc ext r sz typ' flags)))"
  by (simp add: newarray_out_of_range mallocgc_overflow reported_to_caller_def)

theorem oversize_request_fails_witness:
  "unat (MaxMem demo_extern) < unat (tsize \<lparr>tsize = 8, ptrdata = 0, kind = 128, is_deferType = False\<rparr>) * unat (1099511627776 :: uintptr) \<and>
   newarray demo_extern demo_runtime \<lparr>tsize = 8, ptrdata = 0, kind = 128, is_deferType = False\<rparr> 1099511627776 =
     (Inl (Panic ''runtime: allocation size out of range''), demo_runtime) \<and>
   (- 1 :: uintptr) + pageSize < - 1 \<and> mallocing demo_runtime = 0 \<and> \<not> on_gsignal demo_runtime \<and>
   mallocgc demo_extern demo_runtime (- 1) None flagNoScan =
     (Inl (Throw ''out of memory''), demo_runtime\<lparr>mallocing := 1\<rparr>)"
proof -
  have a: "unat (MaxMem demo_extern) < unat (tsize \<lparr>tsize = 8, ptrdata = 0, kind = 128, is_deferType = False\<rparr>) * unat (1099511627776 :: uintptr)"
    by (simp add: demo_extern_def)
  have b: "(- 1 :: uintptr) + pageSize < - 1" "mallocing demo_runtime = 0" "\<not> on_gsignal demo_runtime"
    by (simp_all add: pageSize_def demo_runtime_def)
  from oversize_request_fails [of demo_extern "\<lparr>tsize = 8, ptrdata = 0, kind = 128, is_deferType = False\<rparr>"
      1099511627776 demo_runtime "- 1" None flagNoScan] a b
  show ?thesis by simp
qed

text \<open>
  The largest size wraps around when a page is added, and mallocgc ends in a throw.
\<close>

theorem oversize_large_request_counterexample:
  "(- 1 :: uintptr) + pageSize < - 1 \<and>
   fst (mallocgc demo_extern demo_runtime (- 1) None flagNoScan) = Inl (Throw ''out of memory'') \<and>
   \<not> reported_to_caller (fst (mallocgc demo_extern demo_runtime (- 1) None flagNoScan))"
proof -
  have b: "(- 1 :: uintptr) + pageSize < - 1" "mallocing demo_runtime = 0" "\<not> on_gsignal demo_runtime"
    by (simp_all add: pageSize_def demo_runtime_def)
  then show ?thesis
    by (simp add: mallocgc_overflow reported_to_caller_def)
qed

lemma next_slot_keeps:
  assumes "next_slot ext h c cl = Inr (x, g, h1, c1)"
  shows "tiny c1 = tiny c" "tinyoffset c1 = tinyoffset c"
    "local_cachealloc c1 = local_cachealloc c" "local_tinyallocs c1 = local_tinyallocs c"
    "local_scan c1 = local_scan c" "x \<noteq> 0"
  using assms
  by (auto simp: next_slot_def Let_def split: if_splits sum.splits list.splits prod.splits)

text \<open>
  Claim C8. When a pointer-free request below 16 bytes does not fit the tiny block and
  a slot is taken, the new slot becomes the tiny block, with the request's size as its
  offset, exactly when the size is below the offset the cache had; otherwise block and
  offset stay as they were.
\<close>

theorem tiny_block_replacement:
  assumes "sz \<noteq> 0" and "sz < maxTinySize" and "flags AND flagNoScan \<noteq> 0"
    and "mallocing r = 0" and "\<not> on_gsignal r"
    and "\<not> (tiny_align sz (tinyoffset (cache r)) + sz \<le> maxTinySize \<and> tiny (cache r) \<noteq> 0)"
    and "next_slot ext (heap r) (cache r) tinySizeClass = Inr (x, g, h1, c1)"
  shows "\<exists>r'. mallocgc ext r sz typ flags = (Inr x, r') \<and>
           tiny (cache r') = (if sz < tinyoffset (cache r) then x else tiny (cache r)) \<and>
           tinyoffset (cache r') = (if sz < tinyoffset (cache r) then sz else tinyoffset (cache r)) \<and>
           local_cachealloc (cache r') = local_cachealloc (cache r) + maxTinySize"
proof -
  have small: "sz \<le> maxSmallSize"
    using assms(2) by (simp add: maxTinySize_def maxSmallSize_def word_le_nat_alt word_less_nat_alt)
  note k = next_slot_keeps [OF assms(7)]
  show ?thesis
    using assms(1-6) small k
    by (auto simp: mallocgc_def Let_def assms(7) malloc_done_def account_scan_noscan)
qed

theorem tiny_block_replacement_witness:
  "(8 :: uintptr) \<noteq> 0 \<and> (8 :: uintptr) < maxTinySize \<and> flagNoScan AND flagNoScan \<noteq> 0 \<and>
   \<not> (tiny_align 8 12 + 8 \<le> maxTinySize \<and> (65536 :: uintptr) \<noteq> 0) \<and>
   (\<exists>r'. mallocgc demo_extern
           (demo_runtime\<lparr>cache := demo_cache\<lparr>tiny := 65536, tinyoffset := 12\<rparr>\<rparr>)
           8 None flagNoScan = (Inr 131072, r') \<and>
         tiny (cache r') = 131072 \<and> tinyoffset (cache r') = 8 \<and> local_cachealloc (cache r') = 16)"
proof -
  let ?r = "demo_runtime\<lparr>cache := demo_cache\<lparr>tiny := 65536, tinyoffset := 12\<rparr>\<rparr>"
  have a: "(8 :: uintptr) \<noteq> 0" "(8 :: uintptr) < maxTinySize" "flagNoScan AND flagNoScan \<noteq> 0"
    "mallocing ?r = 0" "\<not> on_gsignal ?r"
    by (simp_all add: maxTinySize_def flagNoScan_def demo_runtime_def)
  have b: "\<not> (tiny_align 8 (tinyoffset (cache ?r)) + 8 \<le> maxTinySize \<and> tiny (cache ?r) \<noteq> 0)"
    by (simp add: tiny_align_def round_def maxTinySize_def)
  have c: "next_slot demo_extern (heap ?r) (cache ?r) tinySizeClass =
           Inr (131072, False,
                demo_heap\<lparr>spans := (spans demo_heap)
                   (1 := demo_span\<lparr>freelist := [131088, 131104], ref := 1\<rparr>)\<rparr>,
                cache ?r)"
    by (simp add: next_slot_def tinySizeClass_def demo_runtime_def demo_cache_def demo_heap_def
        demo_span_def Let_def)
  from tiny_block_replacement [OF a b c, of None] a(1-3) b
  show ?thesis
    by (simp add: demo_cache_def maxTinySize_def)
qed

section \<open>The tiny allocator over a sequence of requests\<close>

text \<open>
  One thread allocating pointer-free objects one after another, until a call fails.
\<close>

fun malloc_seq :: "extern \<Rightarrow> runtime \<Rightarrow> uintptr list \<Rightarrow> (error + uintptr) list \<times> runtime" where
  "malloc_seq ext r [] = ([], r)"
| "malloc_seq ext r (sz # szs) =
     (case mallocgc ext r sz None flagNoScan of
        (Inl e, r') \<Rightarrow> ([Inl e], r')
      | (Inr x, r') \<Rightarrow> (case malloc_seq ext r' szs of (xs, r'') \<Rightarrow> (Inr x # xs, r'')))"

text \<open>
  The objects, placed one after another from an offset with the alignment mallocgc gives
  each of them, all end within one block of 16 bytes.
\<close>

fun fits_block :: "uintptr \<Rightarrow> uintptr list \<Rightarrow> bool" where
  "fits_block off [] = True"
| "fits_block off (sz # szs) =
     (tiny_align sz off + sz \<le> maxTinySize \<and> fits_block (tiny_align sz off + sz) szs)"

lemma word_le_16_cases:
  fixes w :: uintptr
  assumes "w \<le> 16"
  shows "w \<in> {0, 1, 2, 3, 4, 5, 6, 7, 8, 9, 10, 11, 12, 13, 14, 15, 16}"
proof -
  have "unat w \<le> 16"
    using assms by (simp add: word_le_nat_alt)
  then have "unat w \<in> {0, 1, 2, 3, 4, 5, 6, 7, 8, 9, 10, 11, 12, 13, 14, 15, 16}"
    by (simp add: insert_iff) arith
  then have "word_of_nat (unat w) \<in> ((word_of_nat ` {0, 1, 2, 3, 4, 5, 6, 7, 8, 9, 10, 11, 12, 13, 14, 15, 16}) :: uintptr set)"
    by (rule imageI)
  then show ?thesis
    by simp
qed

lemma round_small:
  fixes off :: uintptr
  assumes "off \<le> 16"
  shows "unat (round off 8) = (unat off + 7) div 8 * 8"
    "unat (round off 4) = (unat off + 3) div 4 * 4"
    "unat (round off 2) = (unat off + 1) div 2 * 2"
  using word_le_16_cases [OF assms] by (auto simp: round_def)


text \<open>The alignment on natural numbers, for offsets within a block.\<close>

definition align_up :: "uintptr \<Rightarrow> nat \<Rightarrow> nat" where
  "align_up sz n =
     (if sz AND 7 = 0 then (n + 7) div 8 * 8
      else if sz AND 3 = 0 then (n + 3) div 4 * 4
      else if sz AND 1 = 0 then (n + 1) div 2 * 2
      else n)"

lemma tiny_align_nat: "off \<le> 16 \<Longrightarrow> unat (tiny_align sz off) = align_up sz (unat off)"
  by (simp add: tiny_align_def align_up_def round_small)

lemma align_up_mono: "m \<le> n \<Longrightarrow> align_up sz m \<le> align_up sz n"
  by (simp add: align_up_def div_le_mono)

lemma align_up_le_16: "n \<le> 16 \<Longrightarrow> align_up sz n \<le> 16"
  unfolding align_up_def by (auto split: if_splits)

lemma unat_small_add:
  fixes x y :: uintptr
  assumes "unat x \<le> 16" "unat y < 16"
  shows "unat (x + y) = unat x + unat y"
  using assms by (intro unat_add_lem [THEN iffD1]) simp

lemma fits_block_mono:
  assumes "\<forall>sz \<in> set szs. sz < maxTinySize"
  shows "off \<le> p \<Longrightarrow> p \<le> 16 \<Longrightarrow> fits_block p szs \<Longrightarrow> fits_block off szs"
  using assms
proof (induction szs arbitrary: off p)
  case Nil
  then show ?case by simp
next
  case (Cons sz szs)
  let ?a = "tiny_align sz off" and ?b = "tiny_align sz p"
  have sz: "unat sz < 16"
    using Cons.prems(4) by (simp add: maxTinySize_def word_less_nat_alt)
  have p: "unat p \<le> 16" and off: "unat off \<le> unat p"
    using Cons.prems(1,2) by (simp_all add: word_le_nat_alt)
  then have offle: "off \<le> 16"
    by (simp add: word_le_nat_alt)
  have b: "unat ?b \<le> 16"
    using Cons.prems(2) p by (simp add: tiny_align_nat align_up_le_16)
  have ab: "unat ?a \<le> unat ?b"
    using Cons.prems(2) offle off by (simp add: tiny_align_nat align_up_mono)
  have ub: "unat (?b + sz) = unat ?b + unat sz"
    using b sz by (rule unat_small_add)
  have ua: "unat (?a + sz) = unat ?a + unat sz"
    using ab b sz by (intro unat_small_add) simp_all
  have fb: "?b + sz \<le> maxTinySize" "fits_block (?b + sz) szs"
    using Cons.prems(3) by simp_all
  then have b16: "?b + sz \<le> 16"
    by (simp add: maxTinySize_def)
  have le: "?a + sz \<le> ?b + sz"
    using ua ub ab by (simp add: word_le_nat_alt)
  then have "?a + sz \<le> maxTinySize"
    using fb(1) by simp
  moreover have "fits_block (?a + sz) szs"
    using le b16 fb(2) Cons.prems(4) by (intro Cons.IH [of "?a + sz" "?b + sz"]) simp_all
  ultimately show ?case by simp
qed

lemma mallocgc_busy:
  assumes "sz \<noteq> 0" "mallocing r \<noteq> 0 \<or> on_gsignal r"
  shows "\<exists>e. mallocgc ext r sz typ flags = (Inl e, r)"
  using assms by (auto simp: mallocgc_def)

lemma tiny_is_small: "sz < maxTinySize \<Longrightarrow> sz \<le> maxSmallSize"
  by (simp add: maxTinySize_def maxSmallSize_def word_le_nat_alt word_less_nat_alt)

lemma mallocgc_tiny_fit:
  assumes "sz \<noteq> 0" "sz < maxTinySize" "mallocing r = 0" "\<not> on_gsignal r"
    and "tiny (cache r) \<noteq> 0" "tiny_align sz (tinyoffset (cache r)) + sz \<le> maxTinySize"
  shows "mallocgc ext r sz None flagNoScan =
         (Inr (tiny (cache r) + tiny_align sz (tinyoffset (cache r))),
          r\<lparr>cache := (cache r)\<lparr>tinyoffset := tiny_align sz (tinyoffset (cache r)) + sz,
                                 local_tinyallocs := local_tinyallocs (cache r) + 1\<rparr>,
            mallocing := 0\<rparr>)"
  using assms tiny_is_small [OF assms(2)]
  by (simp add: mallocgc_def Let_def flagNoScan_def)

lemma mallocgc_tiny_slot:
  assumes "sz \<noteq> 0" "sz < maxTinySize" "mallocing r = 0" "\<not> on_gsignal r"
    and "\<not> (tiny_align sz (tinyoffset (cache r)) + sz \<le> maxTinySize \<and> tiny (cache r) \<noteq> 0)"
    and "next_slot ext (heap r) (cache r) tinySizeClass = Inr (x, g, h1, c1)"
  shows "mallocgc ext r sz None flagNoScan =
         (Inr x,
          r\<lparr>heap := h1,
            cache := (if sz < tinyoffset c1 then c1\<lparr>tiny := x, tinyoffset := sz\<rparr> else c1)
                       \<lparr>local_cachealloc := local_cachealloc c1 + maxTinySize\<rparr>,
            mallocing := 0\<rparr>)"
  using assms(1-5) tiny_is_small [OF assms(2)]
  by (auto simp: mallocgc_def Let_def assms(6) malloc_done_def account_scan_def flagNoScan_def)

lemma mallocgc_tiny_fail:
  assumes "sz \<noteq> 0" "sz < maxTinySize" "mallocing r = 0" "\<not> on_gsignal r"
    and "\<not> (tiny_align sz (tinyoffset (cache r)) + sz \<le> maxTinySize \<and> tiny (cache r) \<noteq> 0)"
    and "next_slot ext (heap r) (cache r) tinySizeClass = Inl e"
  shows "mallocgc ext r sz None flagNoScan = (Inl e, r\<lparr>mallocing := 1\<rparr>)"
  using assms(1-5) tiny_is_small [OF assms(2)]
  by (auto simp: mallocgc_def Let_def assms(6) flagNoScan_def)


text \<open>
  mallocgc adds \<^const>\<open>maxTinySize\<close> to \<^verbatim>\<open>local_cachealloc\<close> each time it takes a slot
  of the 16-byte class for a tiny block, and nothing when the object fits the block the
  cache has. The slots a run of requests has taken are counted by that.
\<close>

definition slots_charged :: "runtime \<Rightarrow> runtime \<Rightarrow> nat" where
  "slots_charged r r' =
     unat (local_cachealloc (cache r') - local_cachealloc (cache r)) div unat maxTinySize"

lemma packed_no_slot:
  assumes "\<forall>sz \<in> set szs. sz \<noteq> 0 \<and> sz < maxTinySize"
  shows "tiny (cache r) \<noteq> 0 \<Longrightarrow> fits_block (tinyoffset (cache r)) szs \<Longrightarrow>
         local_cachealloc (cache (snd (malloc_seq ext r szs))) = local_cachealloc (cache r) \<and>
         heap (snd (malloc_seq ext r szs)) = heap r"
  using assms
proof (induction szs arbitrary: r)
  case Nil
  then show ?case by simp
next
  case (Cons sz szs)
  have sz: "sz \<noteq> 0" "sz < maxTinySize"
    using Cons.prems(3) by simp_all
  show ?case
  proof (cases "mallocing r \<noteq> 0 \<or> on_gsignal r")
    case True
    from mallocgc_busy [OF sz(1) True] obtain e
      where "mallocgc ext r sz None flagNoScan = (Inl e, r)" by blast
    then show ?thesis by simp
  next
    case False
    let ?a = "tiny_align sz (tinyoffset (cache r))"
    let ?r = "r\<lparr>cache := (cache r)\<lparr>tinyoffset := ?a + sz,
                                     local_tinyallocs := local_tinyallocs (cache r) + 1\<rparr>,
                mallocing := 0\<rparr>"
    have fit: "?a + sz \<le> maxTinySize" "fits_block (?a + sz) szs"
      using Cons.prems(2) by simp_all
    have m: "mallocgc ext r sz None flagNoScan = (Inr (tiny (cache r) + ?a), ?r)"
      using sz False Cons.prems(1) fit(1) by (intro mallocgc_tiny_fit) simp_all
    have "local_cachealloc (cache (snd (malloc_seq ext ?r szs))) = local_cachealloc (cache ?r) \<and>
          heap (snd (malloc_seq ext ?r szs)) = heap ?r"
      using Cons.prems fit(2) by (intro Cons.IH) simp_all
    then show ?thesis
      by (auto simp: m split: prod.splits)
  qed
qed

lemma packed_one_slot:
  assumes "\<forall>sz \<in> set szs. sz \<noteq> 0 \<and> sz < maxTinySize"
  shows "tiny (cache r) \<noteq> 0 \<Longrightarrow> p \<le> 16 \<Longrightarrow> fits_block p szs \<Longrightarrow>
         local_cachealloc (cache (snd (malloc_seq ext r szs))) = local_cachealloc (cache r) \<or>
         local_cachealloc (cache (snd (malloc_seq ext r szs))) =
           local_cachealloc (cache r) + maxTinySize"
  using assms
proof (induction szs arbitrary: r p)
  case Nil
  then show ?case by simp
next
  case (Cons sz szs)
  have sz: "sz \<noteq> 0" "sz < maxTinySize"
    using Cons.prems(4) by simp_all
  have rest: "\<forall>sz \<in> set szs. sz \<noteq> 0 \<and> sz < maxTinySize"
    using Cons.prems(4) by simp
  let ?b = "tiny_align sz p + sz"
  have fb: "?b \<le> maxTinySize" "fits_block ?b szs"
    using Cons.prems(3) by simp_all
  then have b16: "?b \<le> 16"
    by (simp add: maxTinySize_def)
  have usz: "unat sz < 16"
    using sz(2) by (simp add: maxTinySize_def word_less_nat_alt)
  have "unat (tiny_align sz p) \<le> 16"
    using Cons.prems(2) by (simp add: tiny_align_nat align_up_le_16 word_le_nat_alt)
  then have "unat ?b = unat (tiny_align sz p) + unat sz"
    using usz by (rule unat_small_add)
  then have szb: "sz \<le> ?b"
    by (simp add: word_le_nat_alt)
  show ?case
  proof (cases "mallocing r \<noteq> 0 \<or> on_gsignal r")
    case True
    from mallocgc_busy [OF sz(1) True] obtain e
      where "mallocgc ext r sz None flagNoScan = (Inl e, r)" by blast
    then show ?thesis by simp
  next
    case False
    let ?a = "tiny_align sz (tinyoffset (cache r))"
    show ?thesis
    proof (cases "?a + sz \<le> maxTinySize \<and> tiny (cache r) \<noteq> 0")
      case True
      let ?r = "r\<lparr>cache := (cache r)\<lparr>tinyoffset := ?a + sz,
                                       local_tinyallocs := local_tinyallocs (cache r) + 1\<rparr>,
                  mallocing := 0\<rparr>"
      have m: "mallocgc ext r sz None flagNoScan = (Inr (tiny (cache r) + ?a), ?r)"
        using sz False True by (intro mallocgc_tiny_fit) simp_all
      have "local_cachealloc (cache (snd (malloc_seq ext ?r szs))) = local_cachealloc (cache ?r) \<or>
            local_cachealloc (cache (snd (malloc_seq ext ?r szs))) =
              local_cachealloc (cache ?r) + maxTinySize"
        using Cons.prems(1) b16 fb(2) rest by (intro Cons.IH [of ?r ?b]) simp_all
      then show ?thesis
        by (auto simp: m split: prod.splits)
    next
      case nofit: False
      show ?thesis
      proof (cases "next_slot ext (heap r) (cache r) tinySizeClass")
        case (Inl e)
        have "mallocgc ext r sz None flagNoScan = (Inl e, r\<lparr>mallocing := 1\<rparr>)"
          using sz False nofit Inl by (intro mallocgc_tiny_fail) simp_all
        then show ?thesis by simp
      next
        case (Inr res)
        obtain x g h1 c1 where res: "res = (x, g, h1, c1)"
          by (cases res) auto
        note slot = Inr [unfolded res]
        note k = next_slot_keeps [OF slot]
        let ?c = "(if sz < tinyoffset c1 then c1\<lparr>tiny := x, tinyoffset := sz\<rparr> else c1)
                    \<lparr>local_cachealloc := local_cachealloc c1 + maxTinySize\<rparr>"
        let ?r = "r\<lparr>heap := h1, cache := ?c, mallocing := 0\<rparr>"
        have m: "mallocgc ext r sz None flagNoScan = (Inr x, ?r)"
          using sz False nofit slot by (intro mallocgc_tiny_slot) simp_all
        have t: "tiny (cache ?r) \<noteq> 0"
          using k(1,6) Cons.prems(1) by simp
        have o: "tinyoffset (cache ?r) \<le> sz"
          by (simp add: not_less)
        then have "fits_block (tinyoffset (cache ?r)) szs"
          using szb b16 fb(2) rest
          by (intro fits_block_mono [of szs "tinyoffset (cache ?r)" ?b]) auto
        from packed_no_slot [OF rest t this, of ext]
        have "local_cachealloc (cache (snd (malloc_seq ext ?r szs))) =
              local_cachealloc (cache r) + maxTinySize"
          using k(3) by simp
        then show ?thesis
          by (auto simp: m split: prod.splits)
      qed
    qed
  qed
qed

text \<open>
  Claim C5, as the code has it by design. In a cache that holds a tiny block, a sequence
  of pointer-free requests of 1 to 15 bytes that fit one block of 16 bytes together with
  their alignment padding takes at most one slot of the 16-byte class. The sum of the
  sizes alone does not bound the slots: the padding counts. Nothing is said of a cache
  without a tiny block.
\<close>

theorem tiny_packing_one_slot:
  assumes "tiny (cache r) \<noteq> 0"
    and "\<forall>sz \<in> set szs. sz \<noteq> 0 \<and> sz < maxTinySize"
    and "fits_block 0 szs"
  shows "slots_charged r (snd (malloc_seq ext r szs)) \<le> 1"
  using packed_one_slot [OF assms(2,1) _ assms(3), of ext]
  by (auto simp: slots_charged_def maxTinySize_def)

text \<open>
  In a cache whose tiny block is nil and whose offset is 0, as a zeroed cache has them,
  the test \<^verbatim>\<open>size < c.tinyoffset\<close> never holds: each request takes a slot and none becomes
  the tiny block.
\<close>

lemma tiny_nil_stays_nil:
  assumes "tiny (cache r) = 0" "tinyoffset (cache r) = 0"
    and "sz \<noteq> 0" "sz < maxTinySize"
    and "mallocgc ext r sz None flagNoScan = (Inr x, r')"
  shows "tiny (cache r') = 0 \<and> tinyoffset (cache r') = 0 \<and>
         local_cachealloc (cache r') = local_cachealloc (cache r) + maxTinySize"
proof (cases "mallocing r \<noteq> 0 \<or> on_gsignal r")
  case True
  from mallocgc_busy [OF assms(3) True, of ext None flagNoScan] assms(5) show ?thesis by auto
next
  case False
  have nofit: "\<not> (tiny_align sz (tinyoffset (cache r)) + sz \<le> maxTinySize \<and> tiny (cache r) \<noteq> 0)"
    using assms(1) by simp
  show ?thesis
  proof (cases "next_slot ext (heap r) (cache r) tinySizeClass")
    case (Inl e)
    have "mallocgc ext r sz None flagNoScan = (Inl e, r\<lparr>mallocing := 1\<rparr>)"
      using assms(3,4) False nofit Inl by (intro mallocgc_tiny_fail) simp_all
    with assms(5) show ?thesis by simp
  next
    case (Inr res)
    obtain y g h1 c1 where res: "res = (y, g, h1, c1)"
      by (cases res) auto
    note slot = Inr [unfolded res]
    note k = next_slot_keeps [OF slot]
    have "mallocgc ext r sz None flagNoScan =
          (Inr y, r\<lparr>heap := h1,
             cache := (if sz < tinyoffset c1 then c1\<lparr>tiny := y, tinyoffset := sz\<rparr> else c1)
                        \<lparr>local_cachealloc := local_cachealloc c1 + maxTinySize\<rparr>,
             mallocing := 0\<rparr>)"
      using assms(3,4) False nofit slot by (intro mallocgc_tiny_slot) simp_all
    with assms(1,2,5) k show ?thesis by auto
  qed
qed


lemmas demo_defs = demo_runtime_def demo_cache_def demo_heap_def demo_span_def demo_extern_def
  zero_span_def

lemmas malloc_defs = mallocgc_def next_slot_def tiny_align_def round_def malloc_done_def
  account_scan_def flagNoScan_def maxTinySize_def maxSmallSize_def tinySizeClass_def Let_def

theorem tiny_packing_one_slot_witness:
  "tiny (cache (demo_runtime\<lparr>cache := demo_cache\<lparr>tiny := 65536, tinyoffset := 12\<rparr>\<rparr>)) \<noteq> 0 \<and>
   fits_block 0 [8, 4, 4] \<and>
   slots_charged (demo_runtime\<lparr>cache := demo_cache\<lparr>tiny := 65536, tinyoffset := 12\<rparr>\<rparr>)
     (snd (malloc_seq demo_extern
        (demo_runtime\<lparr>cache := demo_cache\<lparr>tiny := 65536, tinyoffset := 12\<rparr>\<rparr>) [8, 4, 4])) \<le> 1"
proof -
  let ?r = "demo_runtime\<lparr>cache := demo_cache\<lparr>tiny := 65536, tinyoffset := 12\<rparr>\<rparr>"
  have a: "tiny (cache ?r) \<noteq> 0"
    by simp
  have b: "\<forall>sz \<in> set [8, 4, 4 :: uintptr]. sz \<noteq> 0 \<and> sz < maxTinySize"
    by (simp add: maxTinySize_def)
  have c: "fits_block 0 [8, 4, 4]"
    by (simp add: tiny_align_def round_def maxTinySize_def)
  from tiny_packing_one_slot [OF a b c, of demo_extern] a c
  show ?thesis by simp
qed

text \<open>
  Requests of 1, 8 and 1 bytes, 10 bytes in all, on a cache whose tiny block is full:
  the first takes a slot, the second is aligned to offset 8 and fills the block, and the
  third takes a second slot.
\<close>

theorem tiny_packing_counterexample:
  "unat (1 :: uintptr) + unat (8 :: uintptr) + unat (1 :: uintptr) \<le> 16 \<and>
   tiny (cache (demo_runtime\<lparr>cache := demo_cache\<lparr>tiny := 65536, tinyoffset := 16\<rparr>\<rparr>)) \<noteq> 0 \<and>
   slots_charged (demo_runtime\<lparr>cache := demo_cache\<lparr>tiny := 65536, tinyoffset := 16\<rparr>\<rparr>)
     (snd (malloc_seq demo_extern
        (demo_runtime\<lparr>cache := demo_cache\<lparr>tiny := 65536, tinyoffset := 16\<rparr>\<rparr>) [1, 8, 1])) = 2 \<and>
   freelist (spans (heap (snd (malloc_seq demo_extern
        (demo_runtime\<lparr>cache := demo_cache\<lparr>tiny := 65536, tinyoffset := 16\<rparr>\<rparr>) [1, 8, 1]))) 1) =
     [131104]"
  by (simp add: slots_charged_def malloc_defs demo_defs)

end
